theory Spec2Isabelle
  imports Main "HOL-Library.Multiset"
begin

section \<open>The vocabulary data-access layer over a document store\<close>

text \<open>
  The layer keeps three kinds of documents in a hosted document store, addressed by path:
  \<^verbatim>\<open>users/{uid}/wordbooks/{id}\<close>, \<^verbatim>\<open>users/{uid}/wordbooks/{id}/words/{id}\<close> and
  \<^verbatim>\<open>users/{uid}/posTags/{id}\<close>, and two process-local caches. The model is sequential:
  every awaited store call has completed before the next statement runs, and the groups of
  calls the source awaits together touch pairwise different documents, so they are run one
  after the other. The store is reliable: network and permission failures are not modelled,
  and the only store errors are the two its contract fixes from its contents, a partial
  update of a document that does not exist and an add under a path that is taken; limits of
  the store on the size of a request are not modelled. The caches are plain JavaScript
  objects: reading a key the object does not own falls through to \<^verbatim>\<open>Object.prototype\<close>.
\<close>

subsection \<open>Data model\<close>

text \<open>A \<^verbatim>\<open>Timestamp\<close> is the reading of the clock, a natural number; a \<^verbatim>\<open>number\<close> is an
  integer (the layer itself only ever writes the constant 0 into numeric fields).\<close>

type_synonym Timestamp = nat

text \<open>A field of type \<^verbatim>\<open>T | null\<close>; an optional field \<^verbatim>\<open>f?: T\<close> is an \<open>option\<close>.\<close>

datatype 'a nullable = Null | Val 'a

text \<open>\<^verbatim>\<open>Omit<Wordbook, "id">\<close>: the data of a wordbook document.\<close>

record wordbook_data =
  name_wb :: string
  createdAt_wb :: Timestamp
  userId_wb :: string
  trashed :: "bool option"
  trashedAt :: "Timestamp nullable option"

record Wordbook = wordbook_data +
  id_wb :: string

record relatedWords_t =
  same :: "string option"
  opposite :: "string option"

text \<open>\<^verbatim>\<open>Omit<Word, "id" | "createdAt" | "wordbookId" | "reviewDate" | "studyCount">\<close>:
  what the caller supplies for a new word.\<close>

record word_input =
  word :: string
  pinyin :: string
  favorite :: bool
  translation :: string
  partOfSpeech :: "string list"
  exampleSentence :: string
  exampleTranslation :: string
  relatedWords :: "relatedWords_t option"
  usageFrequency :: int
  mastery :: int
  note_w :: string

record word_stamped = word_input +
  wordbookId_w :: string
  createdAt :: Timestamp
  reviewDate :: "Timestamp nullable option"
  studyCount :: "int option"

text \<open>The in-memory \<^verbatim>\<open>Word\<close>, with its identifier.\<close>

record Word = word_stamped +
  id_w :: string

text \<open>The data of a word document. The store is schemaless: \<^verbatim>\<open>bulkImportWords\<close> writes
  the whole \<^verbatim>\<open>Word\<close>, identifier included, \<^verbatim>\<open>createWord\<close> writes none, so the
  \<^verbatim>\<open>id\<close> field of the data is optional.\<close>

record word_doc = word_stamped +
  idField_w :: "string option"

text \<open>\<^verbatim>\<open>Partial<Word>\<close>: every field optional; a field that is present replaces the
  stored one.\<close>

record word_patch =
  word_p :: "string option"
  pinyin_p :: "string option"
  favorite_p :: "bool option"
  translation_p :: "string option"
  partOfSpeech_p :: "string list option"
  exampleSentence_p :: "string option"
  exampleTranslation_p :: "string option"
  relatedWords_p :: "relatedWords_t option"
  usageFrequency_p :: "int option"
  mastery_p :: "int option"
  note_p :: "string option"
  wordbookId_p :: "string option"
  createdAt_p :: "Timestamp option"
  reviewDate_p :: "Timestamp nullable option"
  studyCount_p :: "int option"
  id_p :: "string option"

text \<open>\<^verbatim>\<open>Omit<PartOfSpeechTag, "id" | "userId">\<close>, the tag with its owner, the in-memory
  tag and the data of a tag document.\<close>

record tag_input =
  name_tag :: string
  color :: string

record tag_owned = tag_input +
  userId_tag :: string

record PartOfSpeechTag = tag_owned +
  id_tag :: string

record tag_doc = tag_owned +
  idField_tag :: "string option"

record tag_patch =
  name_tp :: "string option"
  color_tp :: "string option"
  userId_tp :: "string option"
  id_tp :: "string option"

datatype error = NotFound | AlreadyExists | TypeError

subsection \<open>The document store\<close>

text \<open>Modelled from the spec: the document store client (\<^verbatim>\<open>firebase/firestore\<close>) is an
  external collaborator whose code is not part of the repository. Its operations are modelled
  after the list in section 6 of the specification: get-document, get-collection, query with
  an array-contains filter, add-document (a new document under an identifier assigned for
  it), set-document (client-assigned identifier), partial update, delete, atomic write batch
  and the current-timestamp accessor.

  A collection group is an association list from document paths to data, in the store's
  native listing order. No operation below introduces a second entry for a path.\<close>

type_synonym ('k, 'd) docs = "('k \<times> 'd) list"

definition getDoc :: "'k \<Rightarrow> ('k, 'd) docs \<Rightarrow> 'd option" where
  "getDoc k ds = map_of ds k"

definition modifyDoc :: "'k \<Rightarrow> ('d \<Rightarrow> 'd) \<Rightarrow> ('k, 'd) docs \<Rightarrow> ('k, 'd) docs" where
  "modifyDoc k f ds = map (\<lambda>(k', d). if k' = k then (k', f d) else (k', d)) ds"

text \<open>\<^verbatim>\<open>setDoc\<close>: create the document or overwrite it.\<close>

definition setDoc :: "'k \<Rightarrow> 'd \<Rightarrow> ('k, 'd) docs \<Rightarrow> ('k, 'd) docs" where
  "setDoc k d ds =
     (case map_of ds k of
        None \<Rightarrow> ds @ [(k, d)]
      | Some _ \<Rightarrow> modifyDoc k (\<lambda>_. d) ds)"

text \<open>The write of \<^verbatim>\<open>addDoc\<close>: it creates a document and never overwrites one; it fails
  when the path is taken.\<close>

definition addDoc :: "'k \<Rightarrow> 'd \<Rightarrow> ('k, 'd) docs \<Rightarrow> error + ('k, 'd) docs" where
  "addDoc k d ds =
     (case map_of ds k of
        None \<Rightarrow> Inr (ds @ [(k, d)])
      | Some _ \<Rightarrow> Inl AlreadyExists)"

text \<open>\<^verbatim>\<open>updateDoc\<close>: merge fields into an existing document; fails when there is none.\<close>

definition updateDoc :: "'k \<Rightarrow> ('d \<Rightarrow> 'd) \<Rightarrow> ('k, 'd) docs \<Rightarrow> error + ('k, 'd) docs" where
  "updateDoc k f ds =
     (case map_of ds k of
        None \<Rightarrow> Inl NotFound
      | Some _ \<Rightarrow> Inr (modifyDoc k f ds))"

text \<open>\<^verbatim>\<open>deleteDoc\<close>: succeeds whether or not the document exists.\<close>

definition deleteDoc :: "'k \<Rightarrow> ('k, 'd) docs \<Rightarrow> ('k, 'd) docs" where
  "deleteDoc k ds = filter (\<lambda>(k', _). k' \<noteq> k) ds"

text \<open>A write batch: the writes are collected, and \<^verbatim>\<open>commit\<close> applies all of them or,
  when one fails, none.\<close>

datatype ('k, 'd) batch_write = BSet 'k 'd | BUpdate 'k "'d \<Rightarrow> 'd" | BDelete 'k

fun applyWrite :: "('k, 'd) batch_write \<Rightarrow> ('k, 'd) docs \<Rightarrow> error + ('k, 'd) docs" where
  "applyWrite (BSet k d) ds = Inr (setDoc k d ds)"
| "applyWrite (BUpdate k f) ds = updateDoc k f ds"
| "applyWrite (BDelete k) ds = Inr (deleteDoc k ds)"

fun commit :: "('k, 'd) batch_write list \<Rightarrow> ('k, 'd) docs \<Rightarrow> error + ('k, 'd) docs" where
  "commit [] ds = Inr ds"
| "commit (x # xs) ds =
     (case applyWrite x ds of
        Inl e \<Rightarrow> Inl e
      | Inr ds' \<Rightarrow> commit xs ds')"

subsection \<open>The state of the process and of the store\<close>

text \<open>The clock and the identifier generator are traces: the \<open>n\<close>-th call returns the
  \<open>n\<close>-th element, and the state counts the calls made so far.\<close>

record world =
  wordbooks :: "(string \<times> string, wordbook_data) docs"
  words :: "(string \<times> string \<times> string, word_doc) docs"
  posTags :: "(string \<times> string, tag_doc) docs"
  wordCache :: "string \<rightharpoonup> Word list"
  posTagCache :: "string \<rightharpoonup> PartOfSpeechTag list"
  clockTrace :: "nat \<Rightarrow> Timestamp"
  clockReads :: nat
  idTrace :: "nat \<Rightarrow> string"
  idReads :: nat

text \<open>\<^verbatim>\<open>Timestamp.now()\<close>.\<close>

definition now :: "world \<Rightarrow> Timestamp \<times> world" where
  "now w = (clockTrace w (clockReads w), w\<lparr>clockReads := Suc (clockReads w)\<rparr>)"

text \<open>The automatic identifier of \<^verbatim>\<open>addDoc(col, ...)\<close> and \<^verbatim>\<open>doc(col)\<close>.\<close>

definition autoId :: "world \<Rightarrow> string \<times> world" where
  "autoId w = (idTrace w (idReads w), w\<lparr>idReads := Suc (idReads w)\<rparr>)"

definition makeCacheKey :: "string \<Rightarrow> string \<Rightarrow> string" where
  "makeCacheKey userId wordbookId = userId @ ''_'' @ wordbookId"

text \<open>The caches are created as \<^verbatim>\<open>{}\<close> and read as \<^verbatim>\<open>cache[key]\<close>. The record fields
  \<open>wordCache\<close> and \<open>posTagCache\<close> hold the properties the objects own, which are arrays. A
  key the object does not own is looked up in \<^verbatim>\<open>Object.prototype\<close>, whose property names
  (ECMAScript) are listed here; what is found there is a function or the prototype object
  itself: truthy, and without the array methods \<^verbatim>\<open>push\<close>, \<^verbatim>\<open>map\<close> and \<^verbatim>\<open>filter\<close>, so
  that calling one of them raises a \<^verbatim>\<open>TypeError\<close>.\<close>

definition objectPrototypeKeys :: "string list" where
  "objectPrototypeKeys =
     [''constructor'', ''__defineGetter__'', ''__defineSetter__'', ''hasOwnProperty'',
      ''__lookupGetter__'', ''__lookupSetter__'', ''isPrototypeOf'', ''propertyIsEnumerable'',
      ''toString'', ''valueOf'', ''__proto__'', ''toLocaleString'']"

datatype 'a js_value = Array "'a list" | Inherited string

text \<open>\<^verbatim>\<open>obj[key]\<close>; \<open>None\<close> is \<^verbatim>\<open>undefined\<close>, the only falsy outcome.\<close>

definition readProperty :: "(string \<rightharpoonup> 'a list) \<Rightarrow> string \<Rightarrow> 'a js_value option" where
  "readProperty obj key =
     (case obj key of
        Some xs \<Rightarrow> Some (Array xs)
      | None \<Rightarrow> if key \<in> set objectPrototypeKeys then Some (Inherited key) else None)"

text \<open>JavaScript truthiness of an optional boolean: only \<^verbatim>\<open>true\<close> is truthy.\<close>

definition truthy :: "bool option \<Rightarrow> bool" where
  "truthy b = (b = Some True)"

subsection \<open>Wordbook operations\<close>

text \<open>\<^verbatim>\<open>{ id: docSnap.id, ...data }\<close> for wordbook data, which the source types as
  \<^verbatim>\<open>Omit<Wordbook, "id">\<close>: it has no \<^verbatim>\<open>id\<close> field, and no operation of the layer writes
  one into a wordbook document.\<close>

definition toWordbook :: "string \<times> wordbook_data \<Rightarrow> Wordbook" where
  "toWordbook p =
     (case p of (i, d) \<Rightarrow>
        \<lparr>name_wb = name_wb d, createdAt_wb = createdAt_wb d, userId_wb = userId_wb d,
         trashed = trashed d, trashedAt = trashedAt d, id_wb = i\<rparr>)"

text \<open>\<^verbatim>\<open>getDocs(collection(db, "users", userId, "wordbooks"))\<close>.\<close>

definition wordbookDocsOf :: "string \<Rightarrow> world \<Rightarrow> (string \<times> wordbook_data) list" where
  "wordbookDocsOf userId w =
     map (\<lambda>((u, i), d). (i, d)) (filter (\<lambda>((u, i), d). u = userId) (wordbooks w))"

definition getWordbooksByUserId :: "string \<Rightarrow> world \<Rightarrow> Wordbook list" where
  "getWordbooksByUserId userId w =
     map toWordbook (filter (\<lambda>(i, d). \<not> truthy (trashed d)) (wordbookDocsOf userId w))"

definition createWordbook ::
  "string \<Rightarrow> string \<Rightarrow> world \<Rightarrow> (error + Wordbook) \<times> world" where
  "createWordbook userId name w =
     (let (t1, w1) = now w;
          (i, w2) = autoId w1
      in case addDoc (userId, i)
                \<lparr>name_wb = name, createdAt_wb = t1, userId_wb = userId,
                 trashed = Some False, trashedAt = Some Null\<rparr> (wordbooks w2) of
           Inl e \<Rightarrow> (Inl e, w2)
         | Inr ds \<Rightarrow>
             (let w3 = w2\<lparr>wordbooks := ds\<rparr>;
                  (t2, w4) = now w3
              in (Inr \<lparr>name_wb = name, createdAt_wb = t2, userId_wb = userId,
                       trashed = Some False, trashedAt = Some Null, id_wb = i\<rparr>, w4)))"

text \<open>\<^verbatim>\<open>getDocs(collection(..., wordbookId, "words"))\<close>.\<close>

definition wordDocsIn ::
  "string \<Rightarrow> string \<Rightarrow> (string \<times> string \<times> string, word_doc) docs \<Rightarrow> (string \<times> word_doc) list" where
  "wordDocsIn userId wordbookId ds =
     map (\<lambda>((u, b, i), d). (i, d)) (filter (\<lambda>((u, b, i), d). u = userId \<and> b = wordbookId) ds)"

definition deleteWordbook :: "string \<Rightarrow> string \<Rightarrow> world \<Rightarrow> world" where
  "deleteWordbook userId wordbookId w =
     (let wordsSnap = wordDocsIn userId wordbookId (words w);
          w1 = w\<lparr>words :=
                 foldl (\<lambda>ds (i, d). deleteDoc (userId, wordbookId, i) ds) (words w) wordsSnap\<rparr>
      in w1\<lparr>wordbooks := deleteDoc (userId, wordbookId) (wordbooks w1)\<rparr>)"

definition trashWordbook :: "string \<Rightarrow> string \<Rightarrow> world \<Rightarrow> (error + unit) \<times> world" where
  "trashWordbook userId wordbookId w =
     (let (t, w1) = now w
      in case updateDoc (userId, wordbookId)
                (\<lambda>d. d\<lparr>trashed := Some True, trashedAt := Some (Val t)\<rparr>) (wordbooks w1) of
           Inl e \<Rightarrow> (Inl e, w1)
         | Inr ds \<Rightarrow> (Inr (), w1\<lparr>wordbooks := ds\<rparr>))"

definition getTrashedWordbooksByUserId :: "string \<Rightarrow> world \<Rightarrow> Wordbook list" where
  "getTrashedWordbooksByUserId userId w =
     map toWordbook (filter (\<lambda>(i, d). truthy (trashed d)) (wordbookDocsOf userId w))"

definition clearTrashedWordbooks :: "string \<Rightarrow> world \<Rightarrow> world" where
  "clearTrashedWordbooks userId w =
     foldl (\<lambda>w' wb. deleteWordbook userId (id_wb wb) w') w (getTrashedWordbooksByUserId userId w)"

definition updateWordbookName ::
  "string \<Rightarrow> string \<Rightarrow> string \<Rightarrow> world \<Rightarrow> (error + unit) \<times> world" where
  "updateWordbookName userId wordbookId newName w =
     (case updateDoc (userId, wordbookId) (\<lambda>d. d\<lparr>name_wb := newName\<rparr>) (wordbooks w) of
        Inl e \<Rightarrow> (Inl e, w)
      | Inr ds \<Rightarrow> (Inr (), w\<lparr>wordbooks := ds\<rparr>))"

definition getWordbook :: "string \<Rightarrow> string \<Rightarrow> world \<Rightarrow> Wordbook option" where
  "getWordbook userId wordbookId w =
     (case getDoc (userId, wordbookId) (wordbooks w) of
        None \<Rightarrow> None
      | Some d \<Rightarrow> Some (toWordbook (wordbookId, d)))"

subsection \<open>Word operations\<close>

text \<open>Building a \<^verbatim>\<open>Word\<close> and the data of a word document from the common fields.\<close>

definition withId :: "'a word_stamped_scheme \<Rightarrow> string \<Rightarrow> Word" where
  "withId d i =
     \<lparr>word = word d, pinyin = pinyin d, favorite = favorite d, translation = translation d,
      partOfSpeech = partOfSpeech d, exampleSentence = exampleSentence d,
      exampleTranslation = exampleTranslation d, relatedWords = relatedWords d,
      usageFrequency = usageFrequency d, mastery = mastery d, note_w = note_w d,
      wordbookId_w = wordbookId_w d, createdAt = createdAt d, reviewDate = reviewDate d,
      studyCount = studyCount d, id_w = i\<rparr>"

definition withIdField :: "'a word_stamped_scheme \<Rightarrow> string option \<Rightarrow> word_doc" where
  "withIdField d i =
     \<lparr>word = word d, pinyin = pinyin d, favorite = favorite d, translation = translation d,
      partOfSpeech = partOfSpeech d, exampleSentence = exampleSentence d,
      exampleTranslation = exampleTranslation d, relatedWords = relatedWords d,
      usageFrequency = usageFrequency d, mastery = mastery d, note_w = note_w d,
      wordbookId_w = wordbookId_w d, createdAt = createdAt d, reviewDate = reviewDate d,
      studyCount = studyCount d, idField_w = i\<rparr>"

text \<open>\<^verbatim>\<open>{ ...d, wordbookId, createdAt, reviewDate: null, studyCount: 0 }\<close>.\<close>

definition stamp :: "'a word_input_scheme \<Rightarrow> string \<Rightarrow> Timestamp \<Rightarrow> word_stamped" where
  "stamp d wordbookId t =
     \<lparr>word = word d, pinyin = pinyin d, favorite = favorite d, translation = translation d,
      partOfSpeech = partOfSpeech d, exampleSentence = exampleSentence d,
      exampleTranslation = exampleTranslation d, relatedWords = relatedWords d,
      usageFrequency = usageFrequency d, mastery = mastery d, note_w = note_w d,
      wordbookId_w = wordbookId, createdAt = t, reviewDate = Some Null,
      studyCount = Some 0\<rparr>"

text \<open>\<^verbatim>\<open>{ id: docSnap.id, ...docSnap.data() }\<close>: the spread comes second, so an
  \<^verbatim>\<open>id\<close> field of the data wins over the document's identifier.\<close>

definition toWord :: "string \<times> word_doc \<Rightarrow> Word" where
  "toWord p =
     (case p of (i, d) \<Rightarrow>
        withId d (case idField_w d of None \<Rightarrow> i | Some j \<Rightarrow> j))"

definition getWordsByWordbookId ::
  "string \<Rightarrow> string \<Rightarrow> world \<Rightarrow> Word js_value \<times> world" where
  "getWordsByWordbookId userId wordbookId w =
     (let key = makeCacheKey userId wordbookId
      in case readProperty (wordCache w) key of
           Some cached \<Rightarrow> (cached, w)
         | None \<Rightarrow>
             (let ws = map toWord (wordDocsIn userId wordbookId (words w))
              in (Array ws, w\<lparr>wordCache := (wordCache w)(key \<mapsto> ws)\<rparr>)))"

definition createWord ::
  "string \<Rightarrow> string \<Rightarrow> word_input \<Rightarrow> world \<Rightarrow> (error + Word) \<times> world" where
  "createWord userId wordbookId wordData w =
     (let (t1, w1) = now w;
          (i, w2) = autoId w1
      in case addDoc (userId, wordbookId, i)
                (withIdField (stamp wordData wordbookId t1) None) (words w2) of
           Inl e \<Rightarrow> (Inl e, w2)
         | Inr ds \<Rightarrow>
             (let w3 = w2\<lparr>words := ds\<rparr>;
                  (t2, w4) = now w3;
                  newWord = withId (stamp wordData wordbookId t2) i;
                  key = makeCacheKey userId wordbookId
              in case readProperty (wordCache w4) key of
                   None \<Rightarrow> (Inr newWord, w4)
                 | Some (Array cached) \<Rightarrow>
                     (Inr newWord,
                      w4\<lparr>wordCache := (wordCache w4)(key \<mapsto> cached @ [newWord])\<rparr>)
                 | Some (Inherited p) \<Rightarrow> (Inl TypeError, w4)))"

text \<open>A partial update, on the common fields of a document and of a cached word.\<close>

definition orElse :: "'a option \<Rightarrow> 'a \<Rightarrow> 'a" where
  "orElse p old = (case p of None \<Rightarrow> old | Some v \<Rightarrow> v)"

definition orKeep :: "'a option \<Rightarrow> 'a option \<Rightarrow> 'a option" where
  "orKeep p old = (case p of None \<Rightarrow> old | Some v \<Rightarrow> Some v)"

definition patchFields :: "word_patch \<Rightarrow> 'a word_stamped_scheme \<Rightarrow> 'a word_stamped_scheme" where
  "patchFields p d =
     d\<lparr>word := orElse (word_p p) (word d),
       pinyin := orElse (pinyin_p p) (pinyin d),
       favorite := orElse (favorite_p p) (favorite d),
       translation := orElse (translation_p p) (translation d),
       partOfSpeech := orElse (partOfSpeech_p p) (partOfSpeech d),
       exampleSentence := orElse (exampleSentence_p p) (exampleSentence d),
       exampleTranslation := orElse (exampleTranslation_p p) (exampleTranslation d),
       relatedWords := orKeep (relatedWords_p p) (relatedWords d),
       usageFrequency := orElse (usageFrequency_p p) (usageFrequency d),
       mastery := orElse (mastery_p p) (mastery d),
       note_w := orElse (note_p p) (note_w d),
       wordbookId_w := orElse (wordbookId_p p) (wordbookId_w d),
       createdAt := orElse (createdAt_p p) (createdAt d),
       reviewDate := orKeep (reviewDate_p p) (reviewDate d),
       studyCount := orKeep (studyCount_p p) (studyCount d)\<rparr>"

definition patchDoc :: "word_patch \<Rightarrow> word_doc \<Rightarrow> word_doc" where
  "patchDoc p d = (patchFields p d)\<lparr>idField_w := orKeep (id_p p) (idField_w d)\<rparr>"

definition patchWord :: "word_patch \<Rightarrow> Word \<Rightarrow> Word" where
  "patchWord p x = (patchFields p x)\<lparr>id_w := orElse (id_p p) (id_w x)\<rparr>"

definition updateWord ::
  "string \<Rightarrow> string \<Rightarrow> string \<Rightarrow> word_patch \<Rightarrow> world \<Rightarrow> (error + unit) \<times> world" where
  "updateWord userId wordbookId wordId updateData w =
     (case updateDoc (userId, wordbookId, wordId) (patchDoc updateData) (words w) of
        Inl e \<Rightarrow> (Inl e, w)
      | Inr ds \<Rightarrow>
          (let w1 = w\<lparr>words := ds\<rparr>;
               key = makeCacheKey userId wordbookId
           in case readProperty (wordCache w1) key of
                None \<Rightarrow> (Inr (), w1)
              | Some (Array cached) \<Rightarrow>
                  (Inr (),
                   w1\<lparr>wordCache := (wordCache w1)(key \<mapsto>
                        map (\<lambda>x. if id_w x = wordId then patchWord updateData x else x) cached)\<rparr>)
              | Some (Inherited p) \<Rightarrow> (Inl TypeError, w1)))"

definition deleteWord ::
  "string \<Rightarrow> string \<Rightarrow> string \<Rightarrow> world \<Rightarrow> (error + unit) \<times> world" where
  "deleteWord userId wordbookId wordId w =
     (let w1 = w\<lparr>words := deleteDoc (userId, wordbookId, wordId) (words w)\<rparr>;
          key = makeCacheKey userId wordbookId
      in case readProperty (wordCache w1) key of
           None \<Rightarrow> (Inr (), w1)
         | Some (Array cached) \<Rightarrow>
             (Inr (),
              w1\<lparr>wordCache := (wordCache w1)(key \<mapsto> filter (\<lambda>x. id_w x \<noteq> wordId) cached)\<rparr>)
         | Some (Inherited p) \<Rightarrow> (Inl TypeError, w1))"

text \<open>The loop of \<^verbatim>\<open>bulkImportWords\<close>: per item one fresh document reference, one
  \<^verbatim>\<open>batch.set\<close> and one \<^verbatim>\<open>newWords.push\<close>.\<close>

fun importItems ::
  "string \<Rightarrow> string \<Rightarrow> Timestamp \<Rightarrow> word_input list \<Rightarrow> world \<Rightarrow>
   ((string \<times> string \<times> string, word_doc) batch_write list \<times> Word list) \<times> world" where
  "importItems userId wordbookId t [] w = (([], []), w)"
| "importItems userId wordbookId t (d # ds) w =
     (let (i, w1) = autoId w;
          x = withId (stamp d wordbookId t) i;
          ((batch, newWords), w2) = importItems userId wordbookId t ds w1
      in ((BSet (userId, wordbookId, i) (withIdField x (Some (id_w x))) # batch, x # newWords),
          w2))"

definition bulkImportWords ::
  "string \<Rightarrow> string \<Rightarrow> word_input list \<Rightarrow> world \<Rightarrow> (error + Word list) \<times> world" where
  "bulkImportWords userId wordbookId data w =
     (let (createdAt, w1) = now w;
          ((batch, newWords), w2) = importItems userId wordbookId createdAt data w1
      in case commit batch (words w2) of
           Inl e \<Rightarrow> (Inl e, w2)
         | Inr ds \<Rightarrow>
             (let w3 = w2\<lparr>words := ds\<rparr>;
                  key = makeCacheKey userId wordbookId
              in case readProperty (wordCache w3) key of
                   Some (Array cached) \<Rightarrow>
                     (Inr newWords,
                      w3\<lparr>wordCache := (wordCache w3)(key \<mapsto> cached @ newWords)\<rparr>)
                 | Some (Inherited p) \<Rightarrow> (Inl TypeError, w3)
                 | None \<Rightarrow>
                     (Inr newWords, w3\<lparr>wordCache := (wordCache w3)(key \<mapsto> newWords)\<rparr>)))"

text \<open>\<^verbatim>\<open>{ mastery: 0, studyCount: 0, reviewDate: null }\<close>, merged into a document or
  spread over a cached word.\<close>

definition resetFields :: "'a word_stamped_scheme \<Rightarrow> 'a word_stamped_scheme" where
  "resetFields d = d\<lparr>mastery := 0, studyCount := Some 0, reviewDate := Some Null\<rparr>"

definition resetWordsProgress ::
  "string \<Rightarrow> string \<Rightarrow> string list \<Rightarrow> world \<Rightarrow> (error + unit) \<times> world" where
  "resetWordsProgress userId wordbookId ids w =
     (let batch = map (\<lambda>i. BUpdate (userId, wordbookId, i) resetFields) ids
      in case commit batch (words w) of
           Inl e \<Rightarrow> (Inl e, w)
         | Inr ds \<Rightarrow>
             (let w1 = w\<lparr>words := ds\<rparr>;
                  key = makeCacheKey userId wordbookId
              in case readProperty (wordCache w1) key of
                   None \<Rightarrow> (Inr (), w1)
                 | Some (Array cached) \<Rightarrow>
                     (Inr (),
                      w1\<lparr>wordCache := (wordCache w1)(key \<mapsto>
                           map (\<lambda>x. if id_w x \<in> set ids then resetFields x else x) cached)\<rparr>)
                 | Some (Inherited p) \<Rightarrow> (Inl TypeError, w1)))"

definition bulkDeleteWords ::
  "string \<Rightarrow> string \<Rightarrow> string list \<Rightarrow> world \<Rightarrow> (error + unit) \<times> world" where
  "bulkDeleteWords userId wordbookId ids w =
     (let batch = map (\<lambda>i. BDelete (userId, wordbookId, i)) ids
      in case commit batch (words w) of
           Inl e \<Rightarrow> (Inl e, w)
         | Inr ds \<Rightarrow>
             (let w1 = w\<lparr>words := ds\<rparr>;
                  key = makeCacheKey userId wordbookId
              in case readProperty (wordCache w1) key of
                   None \<Rightarrow> (Inr (), w1)
                 | Some (Array cached) \<Rightarrow>
                     (Inr (),
                      w1\<lparr>wordCache := (wordCache w1)(key \<mapsto>
                           filter (\<lambda>x. id_w x \<notin> set ids) cached)\<rparr>)
                 | Some (Inherited p) \<Rightarrow> (Inl TypeError, w1)))"

subsection \<open>Part-of-speech tag operations\<close>

definition toTag :: "string \<times> tag_doc \<Rightarrow> PartOfSpeechTag" where
  "toTag p =
     (case p of (i, d) \<Rightarrow>
        \<lparr>name_tag = name_tag d, color = color d, userId_tag = userId_tag d,
         id_tag = (case idField_tag d of None \<Rightarrow> i | Some j \<Rightarrow> j)\<rparr>)"

definition tagDocsIn :: "string \<Rightarrow> (string \<times> string, tag_doc) docs \<Rightarrow> (string \<times> tag_doc) list" where
  "tagDocsIn userId ds = map (\<lambda>((u, i), d). (i, d)) (filter (\<lambda>((u, i), d). u = userId) ds)"

definition getPartOfSpeechTags ::
  "string \<Rightarrow> world \<Rightarrow> PartOfSpeechTag js_value \<times> world" where
  "getPartOfSpeechTags userId w =
     (case readProperty (posTagCache w) userId of
        Some cached \<Rightarrow> (cached, w)
      | None \<Rightarrow>
          (let tags = map toTag (tagDocsIn userId (posTags w))
           in (Array tags, w\<lparr>posTagCache := (posTagCache w)(userId \<mapsto> tags)\<rparr>)))"

definition createPartOfSpeechTag ::
  "string \<Rightarrow> tag_input \<Rightarrow> world \<Rightarrow> (error + PartOfSpeechTag) \<times> world" where
  "createPartOfSpeechTag userId data w =
     (let (i, w1) = autoId w
      in case addDoc (userId, i)
                \<lparr>name_tag = name_tag data, color = color data, userId_tag = userId,
                 idField_tag = None\<rparr> (posTags w1) of
           Inl e \<Rightarrow> (Inl e, w1)
         | Inr ds \<Rightarrow>
             (let w2 = w1\<lparr>posTags := ds\<rparr>;
                  tag = \<lparr>name_tag = name_tag data, color = color data, userId_tag = userId,
                         id_tag = i\<rparr>
              in case readProperty (posTagCache w2) userId of
                   None \<Rightarrow> (Inr tag, w2)
                 | Some (Array cached) \<Rightarrow>
                     (Inr tag,
                      w2\<lparr>posTagCache := (posTagCache w2)(userId \<mapsto> cached @ [tag])\<rparr>)
                 | Some (Inherited p) \<Rightarrow> (Inl TypeError, w2)))"

definition patchTagFields :: "tag_patch \<Rightarrow> 'a tag_owned_scheme \<Rightarrow> 'a tag_owned_scheme" where
  "patchTagFields p d =
     d\<lparr>name_tag := orElse (name_tp p) (name_tag d),
       color := orElse (color_tp p) (color d),
       userId_tag := orElse (userId_tp p) (userId_tag d)\<rparr>"

definition patchTagDoc :: "tag_patch \<Rightarrow> tag_doc \<Rightarrow> tag_doc" where
  "patchTagDoc p d = (patchTagFields p d)\<lparr>idField_tag := orKeep (id_tp p) (idField_tag d)\<rparr>"

definition patchTag :: "tag_patch \<Rightarrow> PartOfSpeechTag \<Rightarrow> PartOfSpeechTag" where
  "patchTag p x = (patchTagFields p x)\<lparr>id_tag := orElse (id_tp p) (id_tag x)\<rparr>"

definition updatePartOfSpeechTag ::
  "string \<Rightarrow> string \<Rightarrow> tag_patch \<Rightarrow> world \<Rightarrow> (error + unit) \<times> world" where
  "updatePartOfSpeechTag userId tagId data w =
     (case updateDoc (userId, tagId) (patchTagDoc data) (posTags w) of
        Inl e \<Rightarrow> (Inl e, w)
      | Inr ds \<Rightarrow>
          (let w1 = w\<lparr>posTags := ds\<rparr>
           in case readProperty (posTagCache w1) userId of
                None \<Rightarrow> (Inr (), w1)
              | Some (Array cached) \<Rightarrow>
                  (Inr (),
                   w1\<lparr>posTagCache := (posTagCache w1)(userId \<mapsto>
                        map (\<lambda>x. if id_tag x = tagId then patchTag data x else x) cached)\<rparr>)
              | Some (Inherited p) \<Rightarrow> (Inl TypeError, w1)))"

text \<open>The inner fan-out of \<^verbatim>\<open>deletePartOfSpeechTag\<close>: one \<^verbatim>\<open>updateDoc\<close> per word of the
  query snapshot, writing the snapshot's tag list without the tag.\<close>

fun removeTagFromWords ::
  "string \<Rightarrow> string \<Rightarrow> string \<Rightarrow> (string \<times> word_doc) list \<Rightarrow>
   (string \<times> string \<times> string, word_doc) docs \<Rightarrow> error + (string \<times> string \<times> string, word_doc) docs" where
  "removeTagFromWords userId wordbookId tagId [] ds = Inr ds"
| "removeTagFromWords userId wordbookId tagId ((i, dat) # wordsSnap) ds =
     (let updated = filter (\<lambda>t. t \<noteq> tagId) (partOfSpeech dat)
      in case updateDoc (userId, wordbookId, i) (\<lambda>d. d\<lparr>partOfSpeech := updated\<rparr>) ds of
           Inl e \<Rightarrow> Inl e
         | Inr ds' \<Rightarrow> removeTagFromWords userId wordbookId tagId wordsSnap ds')"

text \<open>The outer fan-out: per wordbook document of the user, the query
  \<^verbatim>\<open>where("partOfSpeech", "array-contains", tagId)\<close> and the updates of its result.\<close>

fun removeTagFromWordbooks ::
  "string \<Rightarrow> string \<Rightarrow> (string \<times> wordbook_data) list \<Rightarrow>
   (string \<times> string \<times> string, word_doc) docs \<Rightarrow> error + (string \<times> string \<times> string, word_doc) docs" where
  "removeTagFromWordbooks userId tagId [] ds = Inr ds"
| "removeTagFromWordbooks userId tagId ((wb, dat) # wordbooksSnap) ds =
     (let wordsSnap = filter (\<lambda>(i, d). tagId \<in> set (partOfSpeech d)) (wordDocsIn userId wb ds)
      in case removeTagFromWords userId wb tagId wordsSnap ds of
           Inl e \<Rightarrow> Inl e
         | Inr ds' \<Rightarrow> removeTagFromWordbooks userId tagId wordbooksSnap ds')"

definition deletePartOfSpeechTag ::
  "string \<Rightarrow> string \<Rightarrow> world \<Rightarrow> (error + unit) \<times> world" where
  "deletePartOfSpeechTag userId tagId w =
     (case removeTagFromWordbooks userId tagId (wordbookDocsOf userId w) (words w) of
        Inl e \<Rightarrow> (Inl e, w)
      | Inr ds \<Rightarrow>
          (let w1 = w\<lparr>words := ds\<rparr>;
               w2 = w1\<lparr>posTags := deleteDoc (userId, tagId) (posTags w1)\<rparr>
           in case readProperty (posTagCache w2) userId of
                None \<Rightarrow> (Inr (), w2)
              | Some (Array cached) \<Rightarrow>
                  (Inr (),
                   w2\<lparr>posTagCache := (posTagCache w2)(userId \<mapsto>
                        filter (\<lambda>x. id_tag x \<noteq> tagId) cached)\<rparr>)
              | Some (Inherited p) \<Rightarrow> (Inl TypeError, w2)))"

subsection \<open>The operations as commands\<close>

text \<open>One command per exported function of the layer, and the state a call leaves behind,
  whether it returned or raised.\<close>

datatype op =
    GetWordbooksByUserId string
  | CreateWordbook string string
  | DeleteWordbook string string
  | TrashWordbook string string
  | GetTrashedWordbooksByUserId string
  | ClearTrashedWordbooks string
  | UpdateWordbookName string string string
  | GetWordbook string string
  | GetWordsByWordbookId string string
  | CreateWord string string word_input
  | UpdateWord string string string word_patch
  | DeleteWord string string string
  | BulkImportWords string string "word_input list"
  | ResetWordsProgress string string "string list"
  | BulkDeleteWords string string "string list"
  | GetPartOfSpeechTags string
  | CreatePartOfSpeechTag string tag_input
  | UpdatePartOfSpeechTag string string tag_patch
  | DeletePartOfSpeechTag string string

fun exec :: "op \<Rightarrow> world \<Rightarrow> world" where
  "exec (GetWordbooksByUserId u) w = w"
| "exec (CreateWordbook u n) w = snd (createWordbook u n w)"
| "exec (DeleteWordbook u b) w = deleteWordbook u b w"
| "exec (TrashWordbook u b) w = snd (trashWordbook u b w)"
| "exec (GetTrashedWordbooksByUserId u) w = w"
| "exec (ClearTrashedWordbooks u) w = clearTrashedWordbooks u w"
| "exec (UpdateWordbookName u b n) w = snd (updateWordbookName u b n w)"
| "exec (GetWordbook u b) w = w"
| "exec (GetWordsByWordbookId u b) w = snd (getWordsByWordbookId u b w)"
| "exec (CreateWord u b d) w = snd (createWord u b d w)"
| "exec (UpdateWord u b i p) w = snd (updateWord u b i p w)"
| "exec (DeleteWord u b i) w = snd (deleteWord u b i w)"
| "exec (BulkImportWords u b ds) w = snd (bulkImportWords u b ds w)"
| "exec (ResetWordsProgress u b ids) w = snd (resetWordsProgress u b ids w)"
| "exec (BulkDeleteWords u b ids) w = snd (bulkDeleteWords u b ids w)"
| "exec (GetPartOfSpeechTags u) w = snd (getPartOfSpeechTags u w)"
| "exec (CreatePartOfSpeechTag u d) w = snd (createPartOfSpeechTag u d w)"
| "exec (UpdatePartOfSpeechTag u t p) w = snd (updatePartOfSpeechTag u t p w)"
| "exec (DeletePartOfSpeechTag u t) w = snd (deletePartOfSpeechTag u t w)"

text \<open>A sequence of calls, one after the other.\<close>

definition run :: "op list \<Rightarrow> world \<Rightarrow> world" where
  "run ops w = foldl (\<lambda>w' c. exec c w') w ops"

text \<open>Every document stored for wordbook \<open>i\<close> of user \<open>u\<close> carries \<^verbatim>\<open>trashed = true\<close>; and
  the identifier generator does not yield \<open>i\<close> from now on.\<close>

definition allTrashed :: "string \<Rightarrow> string \<Rightarrow> world \<Rightarrow> bool" where
  "allTrashed u i w = (\<forall>d. ((u, i), d) \<in> set (wordbooks w) \<longrightarrow> trashed d = Some True)"

definition neverGenerated :: "string \<Rightarrow> world \<Rightarrow> bool" where
  "neverGenerated i w = (\<forall>n \<ge> idReads w. idTrace w n \<noteq> i)"

subsection \<open>Example states\<close>

text \<open>A small state of one user: an active and a trashed wordbook, two words carrying tags,
  two tags, cold caches, a clock that advances at every reading and a generator whose
  identifiers are pairwise different.\<close>

definition exampleInput :: word_input where
  "exampleInput =
     \<lparr>word = ''ni hao'', pinyin = ''ni3 hao3'', favorite = False, translation = ''hello'',
      partOfSpeech = [''t1'', ''t2''], exampleSentence = [], exampleTranslation = [],
      relatedWords = None, usageFrequency = 1, mastery = 3, note_w = []\<rparr>"

definition exampleWorld :: world where
  "exampleWorld =
     \<lparr>wordbooks =
        [((''u1'', ''wb1''),
          \<lparr>name_wb = ''HSK'', createdAt_wb = 5, userId_wb = ''u1'',
           trashed = Some False, trashedAt = Some Null\<rparr>),
         ((''u1'', ''wb2''),
          \<lparr>name_wb = ''old'', createdAt_wb = 6, userId_wb = ''u1'',
           trashed = Some True, trashedAt = Some (Val 7)\<rparr>)],
      words =
        [((''u1'', ''wb1'', ''w1''),
          (withIdField (stamp exampleInput ''wb1'' 10) None)
            \<lparr>studyCount := Some 4, reviewDate := Some (Val 50)\<rparr>),
         ((''u1'', ''wb1'', ''w2''),
          (withIdField (stamp exampleInput ''wb1'' 11) None)\<lparr>partOfSpeech := [''t2'']\<rparr>)],
      posTags =
        [((''u1'', ''t1''),
          \<lparr>name_tag = ''noun'', color = ''red'', userId_tag = ''u1'', idField_tag = None\<rparr>),
         ((''u1'', ''t2''),
          \<lparr>name_tag = ''verb'', color = ''blue'', userId_tag = ''u1'', idField_tag = None\<rparr>)],
      wordCache = Map.empty,
      posTagCache = Map.empty,
      clockTrace = (\<lambda>n. 100 + n),
      clockReads = 0,
      idTrace = (\<lambda>n. ''auto'' @ replicate n CHR ''x''),
      idReads = 0\<rparr>"

text \<open>The same state after the word list of wordbook \<^verbatim>\<open>wb1\<close> has been read once, which
  fills the word cache.\<close>

definition warmWorld :: world where
  "warmWorld = snd (getWordsByWordbookId ''u1'' ''wb1'' exampleWorld)"

text \<open>The example state after \<^verbatim>\<open>updatePartOfSpeechTag("u1", "t2", { id: "t1" })\<close>: the
  document of tag \<^verbatim>\<open>t2\<close> now stores an \<^verbatim>\<open>id\<close> field naming another tag.\<close>

definition aliasedTagWorld :: world where
  "aliasedTagWorld =
     snd (updatePartOfSpeechTag ''u1'' ''t2''
            \<lparr>name_tp = None, color_tp = None, userId_tp = None, id_tp = Some ''t1''\<rparr>
            exampleWorld)"

text \<open>A partial update that changes nothing.\<close>

definition emptyPatch :: word_patch where
  "emptyPatch =
     \<lparr>word_p = None, pinyin_p = None, favorite_p = None, translation_p = None,
      partOfSpeech_p = None, exampleSentence_p = None, exampleTranslation_p = None,
      relatedWords_p = None, usageFrequency_p = None, mastery_p = None, note_p = None,
      wordbookId_p = None, createdAt_p = None, reviewDate_p = None, studyCount_p = None,
      id_p = None\<rparr>"

text \<open>The state with the filled cache after \<^verbatim>\<open>updateWord("u1", "wb1", "w2", { id: "w1" })\<close>:
  the document of word \<^verbatim>\<open>w2\<close> now stores an \<^verbatim>\<open>id\<close> field naming word \<^verbatim>\<open>w1\<close>.\<close>

definition aliasedWordWorld :: world where
  "aliasedWordWorld =
     snd (updateWord ''u1'' ''wb1'' ''w2'' (emptyPatch\<lparr>id_p := Some ''w1''\<rparr>) warmWorld)"

text \<open>The example state after \<^verbatim>\<open>createWord("u1", "wbX", ...)\<close>, where no wordbook document
  \<^verbatim>\<open>wbX\<close> exists: a word collection without a wordbook document.\<close>

definition orphanWorld :: world where
  "orphanWorld = snd (createWord ''u1'' ''wbX'' exampleInput exampleWorld)"

subsection \<open>Specification predicates\<close>

text \<open>\<open>cleaned t K p q\<close>: document \<open>q\<close> is document \<open>p\<close> after a clean-up of tag \<open>t\<close> on the
  paths \<open>K\<close>: same path, and either the path is in \<open>K\<close> and the tag list of \<open>q\<close> is free of
  \<open>t\<close>, or the data is unchanged.\<close>

definition cleaned ::
  "string \<Rightarrow> (string \<times> string \<times> string) set \<Rightarrow>
   (string \<times> string \<times> string) \<times> word_doc \<Rightarrow> (string \<times> string \<times> string) \<times> word_doc \<Rightarrow> bool" where
  "cleaned t K p q =
     (fst q = fst p \<and> (if fst p \<in> K then t \<notin> set (partOfSpeech (snd q)) else snd q = snd p))"

text \<open>The words a bulk import of \<open>data\<close> creates, written as the specification words it:
  item \<open>k\<close> gets the \<open>k\<close>-th identifier the generator yields from position \<open>n\<close> on, and all
  items get the one timestamp \<open>t\<close>.\<close>

definition importedWords ::
  "string \<Rightarrow> Timestamp \<Rightarrow> (nat \<Rightarrow> string) \<Rightarrow> nat \<Rightarrow> word_input list \<Rightarrow> Word list" where
  "importedWords wordbookId t ids n data =
     map (\<lambda>(k, d). withId (stamp d wordbookId t) (ids k)) (enumerate n data)"

text \<open>The document \<^verbatim>\<open>batch.set(docRef, word)\<close> stores for a word: the word itself, its
  identifier included.\<close>

definition docOfWord :: "Word \<Rightarrow> word_doc" where
  "docOfWord x = withIdField x (Some (id_w x))"

section \<open>Properties\<close>

subsection \<open>The store primitives\<close>

lemma map_of_modifyDoc:
  "map_of (modifyDoc k f ds) k' = (if k' = k then map_option f (map_of ds k') else map_of ds k')"
  by (induction ds) (auto simp: modifyDoc_def)

lemma map_of_setDoc_same: "map_of (setDoc k d ds) k = Some d"
  by (auto simp: setDoc_def map_of_modifyDoc map_add_def split: option.splits)

lemma map_of_setDoc_other: "k' \<noteq> k \<Longrightarrow> map_of (setDoc k d ds) k' = map_of ds k'"
  by (auto simp: setDoc_def map_of_modifyDoc map_add_def split: option.splits)

lemma mset_map_filter_partition:
  "mset (map f (filter (\<lambda>x. \<not> P x) xs)) + mset (map f (filter P xs)) = mset (map f xs)"
  by (induction xs) auto

lemma exampleWorld_sources:
  "clockTrace exampleWorld n = 100 + n" "clockReads exampleWorld = 0"
  "idTrace exampleWorld n = ''auto'' @ replicate n CHR ''x''" "idReads exampleWorld = 0"
  by (simp_all add: exampleWorld_def)

lemma map_fst_modifyDoc: "map fst (modifyDoc k f ds) = map fst ds"
  by (induction ds) (auto simp: modifyDoc_def)

lemma map_of_deleteDoc: "map_of (deleteDoc k ds) k' = (if k' = k then None else map_of ds k')"
  by (induction ds) (auto simp: deleteDoc_def)

lemma key_in_docs_iff: "k \<in> fst ` set ds \<longleftrightarrow> map_of ds k \<noteq> None"
  by (simp add: map_of_eq_None_iff)

lemma updateDoc_Inr_iff:
  "updateDoc k f ds = Inr ds' \<longleftrightarrow> k \<in> fst ` set ds \<and> ds' = modifyDoc k f ds"
  unfolding key_in_docs_iff by (auto simp: updateDoc_def split: option.splits)

lemma foldl_deleteDoc:
  "foldl (\<lambda>ds (i, d). deleteDoc (u, b, i) ds) ds snap =
     filter (\<lambda>(k, d). k \<notin> (\<lambda>i. (u, b, i)) ` fst ` set snap) ds"
proof (induction snap arbitrary: ds)
  case Nil
  then show ?case by simp
next
  case (Cons p snap)
  obtain i d where p: "p = (i, d)" by (cases p)
  have "foldl (\<lambda>ds (i, d). deleteDoc (u, b, i) ds) ds (p # snap) =
      filter (\<lambda>(k, d). k \<notin> (\<lambda>i. (u, b, i)) ` fst ` set snap) (deleteDoc (u, b, i) ds)"
    unfolding p by (simp add: Cons.IH)
  also have "\<dots> = filter (\<lambda>(k, d). k \<notin> (\<lambda>i. (u, b, i)) ` fst ` set (p # snap)) ds"
    unfolding p deleteDoc_def by (auto intro: filter_cong)
  finally show ?case .
qed

lemma wordDocsIn_member:
  "(i, d) \<in> set (wordDocsIn u b ds) \<longleftrightarrow> ((u, b, i), d) \<in> set ds"
  by (force simp: wordDocsIn_def)

lemma wordbookDocsOf_member:
  "(b, dat) \<in> set (wordbookDocsOf u w) \<longleftrightarrow> ((u, b), dat) \<in> set (wordbooks w)"
  by (force simp: wordbookDocsOf_def)

lemma tagDocsIn_member:
  "(i, d) \<in> set (tagDocsIn u ds) \<longleftrightarrow> ((u, i), d) \<in> set ds"
  by (force simp: tagDocsIn_def)

lemma list_all2_in_set_right: "list_all2 R xs ys \<Longrightarrow> y \<in> set ys \<Longrightarrow> \<exists>x\<in>set xs. R x y"
  by (induction rule: list_all2_induct) auto

text \<open>The store primitives keep the paths of a collection group pairwise different.\<close>

lemma distinct_modifyDoc: "distinct (map fst (modifyDoc k f ds)) = distinct (map fst ds)"
  by (simp add: map_fst_modifyDoc)

lemma distinct_setDoc: "distinct (map fst ds) \<Longrightarrow> distinct (map fst (setDoc k d ds))"
proof (cases "map_of ds k")
  case None
  then have "k \<notin> fst ` set ds" by (simp add: map_of_eq_None_iff)
  moreover assume "distinct (map fst ds)"
  ultimately show ?thesis by (simp add: setDoc_def None)
next
  case (Some x)
  moreover assume "distinct (map fst ds)"
  ultimately show ?thesis by (simp add: setDoc_def distinct_modifyDoc)
qed

lemma distinct_addDoc:
  "distinct (map fst ds) \<Longrightarrow> addDoc k d ds = Inr ds' \<Longrightarrow> distinct (map fst ds')"
proof (cases "map_of ds k")
  case None
  then have "k \<notin> fst ` set ds" by (simp add: map_of_eq_None_iff)
  moreover assume "distinct (map fst ds)" "addDoc k d ds = Inr ds'"
  ultimately show ?thesis by (auto simp: addDoc_def None)
next
  case (Some x)
  moreover assume "addDoc k d ds = Inr ds'"
  ultimately show ?thesis by (simp add: addDoc_def)
qed

lemma distinct_deleteDoc: "distinct (map fst ds) \<Longrightarrow> distinct (map fst (deleteDoc k ds))"
  by (simp add: deleteDoc_def distinct_map_filter)

text \<open>Reading a property of a cache object.\<close>

lemma readProperty_own: "obj key = Some xs \<Longrightarrow> readProperty obj key = Some (Array xs)"
  by (simp add: readProperty_def)

lemma readProperty_None_iff:
  "readProperty obj key = None \<longleftrightarrow> obj key = None \<and> key \<notin> set objectPrototypeKeys"
  by (simp add: readProperty_def split: option.splits)

lemma readProperty_Array_iff:
  "readProperty obj key = Some (Array xs) \<longleftrightarrow> obj key = Some xs"
  by (simp add: readProperty_def split: option.splits)

lemma readProperty_Inherited_iff:
  "readProperty obj key = Some (Inherited p) \<longleftrightarrow>
     obj key = None \<and> key \<in> set objectPrototypeKeys \<and> p = key"
  by (auto simp: readProperty_def split: option.splits)

lemma readProperty_cases [case_names absent own inherited]:
  obtains "obj key = None" "key \<notin> set objectPrototypeKeys" "readProperty obj key = None"
  | xs where "obj key = Some xs" "readProperty obj key = Some (Array xs)"
  | "obj key = None" "key \<in> set objectPrototypeKeys"
      "readProperty obj key = Some (Inherited key)"
  by (cases "obj key") (auto simp: readProperty_def)

lemmas store_eval = readProperty_def objectPrototypeKeys_def
  getDoc_def modifyDoc_def setDoc_def addDoc_def updateDoc_def deleteDoc_def
  wordbookDocsOf_def wordDocsIn_def tagDocsIn_def makeCacheKey_def truthy_def
  toWordbook_def toWord_def toTag_def withId_def withIdField_def stamp_def
  now_def autoId_def Let_def orElse_def orKeep_def

subsection \<open>Reading a single wordbook\<close>

text \<open>
  Claim C8. When the store holds no document at \<^verbatim>\<open>users/{userId}/wordbooks/{wordbookId}\<close>,
  \<open>getWordbook\<close> returns the not-found value \<open>None\<close>; when it holds one, the result is the
  record made of the document's identifier and its stored fields. The function has no error
  result: whatever it returns is \<open>None\<close> or built from a document of the store at that path.
\<close>

theorem getWordbook_null_or_record:
  "((userId, wordbookId) \<notin> fst ` set (wordbooks w) \<longrightarrow> getWordbook userId wordbookId w = None) \<and>
   (\<forall>d. getDoc (userId, wordbookId) (wordbooks w) = Some d \<longrightarrow>
      getWordbook userId wordbookId w =
        Some \<lparr>name_wb = name_wb d, createdAt_wb = createdAt_wb d, userId_wb = userId_wb d,
              trashed = trashed d, trashedAt = trashedAt d, id_wb = wordbookId\<rparr>) \<and>
   (getWordbook userId wordbookId w = None \<or>
      (\<exists>d. ((userId, wordbookId), d) \<in> set (wordbooks w) \<and>
           getWordbook userId wordbookId w = Some (toWordbook (wordbookId, d))))"
proof (intro conjI allI impI)
  assume "(userId, wordbookId) \<notin> fst ` set (wordbooks w)"
  then have "map_of (wordbooks w) (userId, wordbookId) = None"
    by (simp add: map_of_eq_None_iff)
  then show "getWordbook userId wordbookId w = None"
    by (simp add: getWordbook_def getDoc_def)
next
  fix d
  assume "getDoc (userId, wordbookId) (wordbooks w) = Some d"
  then show "getWordbook userId wordbookId w =
        Some \<lparr>name_wb = name_wb d, createdAt_wb = createdAt_wb d, userId_wb = userId_wb d,
              trashed = trashed d, trashedAt = trashedAt d, id_wb = wordbookId\<rparr>"
    by (simp add: getWordbook_def toWordbook_def)
next
  show "getWordbook userId wordbookId w = None \<or>
      (\<exists>d. ((userId, wordbookId), d) \<in> set (wordbooks w) \<and>
           getWordbook userId wordbookId w = Some (toWordbook (wordbookId, d)))"
  proof (cases "getDoc (userId, wordbookId) (wordbooks w)")
    case None
    then show ?thesis by (simp add: getWordbook_def)
  next
    case (Some d)
    then have "((userId, wordbookId), d) \<in> set (wordbooks w)"
      by (auto simp: getDoc_def dest: map_of_SomeD)
    with Some show ?thesis by (auto simp: getWordbook_def)
  qed
qed

theorem getWordbook_null_or_record_witness:
  "getWordbook ''u1'' ''wb9'' exampleWorld = None \<and>
   getWordbook ''u1'' ''wb2'' exampleWorld =
     Some \<lparr>name_wb = ''old'', createdAt_wb = 6, userId_wb = ''u1'',
           trashed = Some True, trashedAt = Some (Val 7), id_wb = ''wb2''\<rparr>"
  using getWordbook_null_or_record [of "''u1''" "''wb9''" exampleWorld]
    getWordbook_null_or_record [of "''u1''" "''wb2''" exampleWorld]
  by (simp add: exampleWorld_def getDoc_def)

subsection \<open>Active and trashed wordbooks\<close>

text \<open>
  Claim C10. For every user and every state of the store, \<open>getWordbooksByUserId\<close> returns, in
  the store's order, the wordbook documents stored for the user whose \<^verbatim>\<open>trashed\<close> flag is
  not \<^verbatim>\<open>true\<close>, and \<open>getTrashedWordbooksByUserId\<close> those whose flag is \<^verbatim>\<open>true\<close>, each
  as the record of the document's identifier and fields: membership is decided by the flag
  alone. The two lists have no element in common, and as multisets they add up to the
  wordbook documents the store holds for the user: each document is in exactly one of the
  two lists, as often as the store lists it.
\<close>

theorem wordbook_lists_partition:
  "getWordbooksByUserId userId w =
     map (\<lambda>((u, i), d).
            \<lparr>name_wb = name_wb d, createdAt_wb = createdAt_wb d, userId_wb = userId_wb d,
             trashed = trashed d, trashedAt = trashedAt d, id_wb = i\<rparr>)
       (filter (\<lambda>((u, i), d). u = userId \<and> trashed d \<noteq> Some True) (wordbooks w)) \<and>
   getTrashedWordbooksByUserId userId w =
     map (\<lambda>((u, i), d).
            \<lparr>name_wb = name_wb d, createdAt_wb = createdAt_wb d, userId_wb = userId_wb d,
             trashed = trashed d, trashedAt = trashedAt d, id_wb = i\<rparr>)
       (filter (\<lambda>((u, i), d). u = userId \<and> trashed d = Some True) (wordbooks w)) \<and>
   set (getWordbooksByUserId userId w) \<inter> set (getTrashedWordbooksByUserId userId w) = {} \<and>
   mset (getWordbooksByUserId userId w) + mset (getTrashedWordbooksByUserId userId w) =
     mset (map (\<lambda>((u, i), d).
                  \<lparr>name_wb = name_wb d, createdAt_wb = createdAt_wb d, userId_wb = userId_wb d,
                   trashed = trashed d, trashedAt = trashedAt d, id_wb = i\<rparr>)
             (filter (\<lambda>((u, i), d). u = userId) (wordbooks w)))"
proof -
  let ?rec = "\<lambda>((u, i), d).
            \<lparr>name_wb = name_wb d, createdAt_wb = createdAt_wb d, userId_wb = userId_wb d,
             trashed = trashed d, trashedAt = trashedAt d, id_wb = i\<rparr>"
  let ?mine = "filter (\<lambda>((u, i), d). u = userId) (wordbooks w)"
  have active: "getWordbooksByUserId userId w =
      map ?rec (filter (\<lambda>((u, i), d). u = userId \<and> trashed d \<noteq> Some True) (wordbooks w))"
    by (auto simp: getWordbooksByUserId_def wordbookDocsOf_def toWordbook_def truthy_def
        filter_map o_def split_def)
  have gone: "getTrashedWordbooksByUserId userId w =
      map ?rec (filter (\<lambda>((u, i), d). u = userId \<and> trashed d = Some True) (wordbooks w))"
    by (auto simp: getTrashedWordbooksByUserId_def wordbookDocsOf_def toWordbook_def truthy_def
        filter_map o_def split_def)
  have disj: "set (getWordbooksByUserId userId w) \<inter>
      set (getTrashedWordbooksByUserId userId w) = {}"
    unfolding active gone by auto
  have split: "filter (\<lambda>((u, i), d). u = userId \<and> trashed d \<noteq> Some True) (wordbooks w) =
        filter (\<lambda>p. \<not> (case p of ((u, i), d) \<Rightarrow> trashed d = Some True)) ?mine"
      "filter (\<lambda>((u, i), d). u = userId \<and> trashed d = Some True) (wordbooks w) =
        filter (\<lambda>p. case p of ((u, i), d) \<Rightarrow> trashed d = Some True) ?mine"
    by (auto simp: split_def intro: filter_cong)
  have sum: "mset (getWordbooksByUserId userId w) + mset (getTrashedWordbooksByUserId userId w) =
      mset (map ?rec ?mine)"
    unfolding active gone split by (rule mset_map_filter_partition)
  from active gone disj sum show ?thesis by blast
qed

theorem wordbook_lists_partition_witness:
  "map (\<lambda>b. (id_wb b, name_wb b, trashed b)) (getWordbooksByUserId ''u1'' exampleWorld) =
     [(''wb1'', ''HSK'', Some False)] \<and>
   map (\<lambda>b. (id_wb b, name_wb b, trashed b)) (getTrashedWordbooksByUserId ''u1'' exampleWorld) =
     [(''wb2'', ''old'', Some True)] \<and>
   map fst (wordbooks exampleWorld) = [(''u1'', ''wb1''), (''u1'', ''wb2'')] \<and>
   getWordbooksByUserId ''u2'' exampleWorld = []"
  using wordbook_lists_partition [of "''u1''" exampleWorld]
    wordbook_lists_partition [of "''u2''" exampleWorld]
  by (simp add: exampleWorld_def)

subsection \<open>Creating a wordbook\<close>

lemma createWordbook_cases:
  "createWordbook userId name w =
     (case map_of (wordbooks w) (userId, idTrace w (idReads w)) of
        Some d \<Rightarrow>
          (Inl AlreadyExists,
           w\<lparr>clockReads := Suc (clockReads w), idReads := Suc (idReads w)\<rparr>)
      | None \<Rightarrow>
          (Inr \<lparr>name_wb = name, createdAt_wb = clockTrace w (Suc (clockReads w)),
                userId_wb = userId, trashed = Some False, trashedAt = Some Null,
                id_wb = idTrace w (idReads w)\<rparr>,
           w\<lparr>clockReads := Suc (Suc (clockReads w)), idReads := Suc (idReads w),
             wordbooks := wordbooks w @
               [((userId, idTrace w (idReads w)),
                 \<lparr>name_wb = name, createdAt_wb = clockTrace w (clockReads w),
                  userId_wb = userId, trashed = Some False, trashedAt = Some Null\<rparr>)]\<rparr>))"
proof (cases "map_of (wordbooks w) (userId, idTrace w (idReads w))")
  case None
  then show ?thesis
    by (simp add: createWordbook_def now_def autoId_def addDoc_def Let_def)
next
  case (Some d)
  then show ?thesis
    by (simp add: createWordbook_def now_def autoId_def addDoc_def Let_def)
qed

text \<open>
  Claim C7. When \<open>createWordbook\<close> completes, the store holds, under the identifier assigned
  to the new document, a document with the given name, the user, \<^verbatim>\<open>trashed = false\<close>,
  \<^verbatim>\<open>trashedAt = null\<close> and the clock reading taken before the write; the returned record
  has that identifier and the same fields, except that its \<^verbatim>\<open>createdAt\<close> is the next
  clock reading, taken after the write. The clock is read twice. Reading the wordbook back
  yields the stored timestamp, and the record read back differs from the returned one exactly
  when the two readings differ.
\<close>

theorem createWordbook_restamps:
  "createWordbook userId name w = (Inr wb, w') \<Longrightarrow>
     getDoc (userId, idTrace w (idReads w)) (wordbooks w') =
       Some \<lparr>name_wb = name, createdAt_wb = clockTrace w (clockReads w), userId_wb = userId,
             trashed = Some False, trashedAt = Some Null\<rparr> \<and>
     wb = \<lparr>name_wb = name, createdAt_wb = clockTrace w (Suc (clockReads w)), userId_wb = userId,
           trashed = Some False, trashedAt = Some Null, id_wb = idTrace w (idReads w)\<rparr> \<and>
     clockReads w' = clockReads w + 2 \<and>
     getWordbook userId (id_wb wb) w' = Some (wb\<lparr>createdAt_wb := clockTrace w (clockReads w)\<rparr>) \<and>
     (getWordbook userId (id_wb wb) w' \<noteq> Some wb \<longleftrightarrow>
        clockTrace w (Suc (clockReads w)) \<noteq> clockTrace w (clockReads w))"
proof -
  assume run: "createWordbook userId name w = (Inr wb, w')"
  let ?i = "idTrace w (idReads w)"
  let ?stored = "\<lparr>name_wb = name, createdAt_wb = clockTrace w (clockReads w), userId_wb = userId,
             trashed = Some False, trashedAt = Some Null\<rparr>"
  from run have free: "map_of (wordbooks w) (userId, ?i) = None"
    by (cases "map_of (wordbooks w) (userId, ?i)") (simp_all add: createWordbook_cases)
  with run have wb: "wb = \<lparr>name_wb = name, createdAt_wb = clockTrace w (Suc (clockReads w)),
        userId_wb = userId, trashed = Some False, trashedAt = Some Null, id_wb = ?i\<rparr>"
    and w': "w' = w\<lparr>clockReads := Suc (Suc (clockReads w)), idReads := Suc (idReads w),
        wordbooks := wordbooks w @ [((userId, ?i), ?stored)]\<rparr>"
    by (simp_all add: createWordbook_cases)
  have stored: "getDoc (userId, ?i) (wordbooks w') = Some ?stored"
    by (simp add: w' getDoc_def free map_add_def)
  have rb: "getWordbook userId (id_wb wb) w' = Some (wb\<lparr>createdAt_wb := clockTrace w (clockReads w)\<rparr>)"
    using stored by (simp add: getWordbook_def wb toWordbook_def)
  have "clockReads w' = clockReads w + 2" by (simp add: w')
  moreover have "getWordbook userId (id_wb wb) w' \<noteq> Some wb \<longleftrightarrow>
        clockTrace w (Suc (clockReads w)) \<noteq> clockTrace w (clockReads w)"
    unfolding rb by (auto simp: wb)
  ultimately show ?thesis using stored wb rb by blast
qed

theorem createWordbook_restamps_witness:
  "map_sum id createdAt_wb (fst (createWordbook ''u1'' ''HSK2'' exampleWorld)) = Inr 101 \<and>
   map_option createdAt_wb
     (getWordbook ''u1'' ''auto'' (snd (createWordbook ''u1'' ''HSK2'' exampleWorld))) = Some 100"
proof -
  obtain wb w1 where run: "createWordbook ''u1'' ''HSK2'' exampleWorld = (Inr wb, w1)"
    by (simp add: createWordbook_cases exampleWorld_def)
  from createWordbook_restamps [OF run] show ?thesis
    by (auto simp: run exampleWorld_sources)
qed

subsection \<open>Deleting a wordbook\<close>

text \<open>\<open>deleteWordbook\<close> removes the wordbook document and every word document below it, and
  leaves the word cache as it was. On a key the cache answers with \<^verbatim>\<open>undefined\<close> the word
  list read afterwards is empty.\<close>

lemma deleteWordbook_words:
  "wordDocsIn u b (words (deleteWordbook u b w)) = []"
proof -
  have "False" if "((u, b, i), d) \<in> set (words (deleteWordbook u b w))" for i d
  proof -
    from that have in_w: "((u, b, i), d) \<in> set (words w)"
      and out: "(u, b, i) \<notin> (\<lambda>i. (u, b, i)) ` fst ` set (wordDocsIn u b (words w))"
      by (auto simp: deleteWordbook_def Let_def foldl_deleteDoc)
    from in_w have "(i, d) \<in> set (wordDocsIn u b (words w))"
      by (simp add: wordDocsIn_member)
    then have "i \<in> fst ` set (wordDocsIn u b (words w))" by (rule rev_image_eqI) simp
    then have "(u, b, i) \<in> (\<lambda>i. (u, b, i)) ` fst ` set (wordDocsIn u b (words w))"
      by (rule imageI)
    with out show False by contradiction
  qed
  then have "p \<notin> set (wordDocsIn u b (words (deleteWordbook u b w)))" for p
    by (cases p) (auto simp: wordDocsIn_member)
  then show ?thesis
    by (cases "wordDocsIn u b (words (deleteWordbook u b w))") auto
qed

lemma deleteWordbook_getWordbook: "getWordbook u b (deleteWordbook u b w) = None"
  by (simp add: getWordbook_def deleteWordbook_def Let_def getDoc_def map_of_deleteDoc)

lemma deleteWordbook_wordCache: "wordCache (deleteWordbook u b w) = wordCache w"
  by (simp add: deleteWordbook_def Let_def)

lemma deleteWordbook_cold:
  "readProperty (wordCache w) (makeCacheKey u b) = None \<Longrightarrow>
   fst (getWordsByWordbookId u b (deleteWordbook u b w)) = Array []"
  by (simp add: getWordsByWordbookId_def Let_def deleteWordbook_wordCache deleteWordbook_words)

text \<open>
  Claim C1. After \<open>deleteWordbook\<close>, \<open>getWordbook\<close> returns the not-found value and the store
  holds no word of the wordbook; but the word list is read cache-first and \<open>deleteWordbook\<close>
  never touches the word cache, unlike \<open>deleteWord\<close> and \<open>bulkDeleteWords\<close>. In the example
  state whose cache entry was filled by an earlier read, \<open>getWordsByWordbookId\<close> after the
  deletion still returns the two deleted words.
\<close>

theorem deleteWordbook_stale_word_cache:
  "getWordbook ''u1'' ''wb1'' (deleteWordbook ''u1'' ''wb1'' warmWorld) = None \<and>
   wordDocsIn ''u1'' ''wb1'' (words (deleteWordbook ''u1'' ''wb1'' warmWorld)) = [] \<and>
   map_js_value id_w
     (fst (getWordsByWordbookId ''u1'' ''wb1'' (deleteWordbook ''u1'' ''wb1'' warmWorld))) =
     Array [''w1'', ''w2'']"
  by (simp add: warmWorld_def getWordsByWordbookId_def deleteWordbook_def getWordbook_def
      exampleWorld_def exampleInput_def store_eval)

subsection \<open>Reading the word list\<close>

text \<open>
  Claim C5. When the cache entry of a (user, wordbook) key is populated, \<open>getWordsByWordbookId\<close>
  returns the cached list and leaves the state as it is, whatever the store holds: the result
  does not depend on the store. The same holds for whatever else the cache object answers
  for the key. In particular, after a first call, replacing the contents of the store by
  anything (an external process writing to it) does not change what the second call returns.
\<close>

theorem getWordsByWordbookId_cache_first:
  "(\<forall>cached. wordCache w (makeCacheKey userId wordbookId) = Some cached \<longrightarrow>
      getWordsByWordbookId userId wordbookId (w\<lparr>wordbooks := bs, words := ds, posTags := ts\<rparr>) =
        (Array cached, w\<lparr>wordbooks := bs, words := ds, posTags := ts\<rparr>)) \<and>
   (\<forall>v. readProperty (wordCache w) (makeCacheKey userId wordbookId) = Some v \<longrightarrow>
      getWordsByWordbookId userId wordbookId (w\<lparr>wordbooks := bs, words := ds, posTags := ts\<rparr>) =
        (v, w\<lparr>wordbooks := bs, words := ds, posTags := ts\<rparr>)) \<and>
   fst (getWordsByWordbookId userId wordbookId
          ((snd (getWordsByWordbookId userId wordbookId w))
             \<lparr>wordbooks := bs, words := ds, posTags := ts\<rparr>)) =
     fst (getWordsByWordbookId userId wordbookId w)"
proof (intro conjI allI impI)
  fix cached
  assume "wordCache w (makeCacheKey userId wordbookId) = Some cached"
  then show "getWordsByWordbookId userId wordbookId
        (w\<lparr>wordbooks := bs, words := ds, posTags := ts\<rparr>) =
      (Array cached, w\<lparr>wordbooks := bs, words := ds, posTags := ts\<rparr>)"
    by (simp add: getWordsByWordbookId_def Let_def readProperty_own)
next
  fix v
  assume "readProperty (wordCache w) (makeCacheKey userId wordbookId) = Some v"
  then show "getWordsByWordbookId userId wordbookId
        (w\<lparr>wordbooks := bs, words := ds, posTags := ts\<rparr>) =
      (v, w\<lparr>wordbooks := bs, words := ds, posTags := ts\<rparr>)"
    by (simp add: getWordsByWordbookId_def Let_def)
next
  show "fst (getWordsByWordbookId userId wordbookId
          ((snd (getWordsByWordbookId userId wordbookId w))
             \<lparr>wordbooks := bs, words := ds, posTags := ts\<rparr>)) =
     fst (getWordsByWordbookId userId wordbookId w)"
    by (cases rule: readProperty_cases [of "wordCache w" "makeCacheKey userId wordbookId"])
      (simp_all add: getWordsByWordbookId_def Let_def readProperty_own)
qed

theorem getWordsByWordbookId_cache_first_witness:
  "wordCache warmWorld (makeCacheKey ''u1'' ''wb1'') \<noteq> None \<and>
   map_js_value id_w
     (fst (getWordsByWordbookId ''u1'' ''wb1''
             (warmWorld\<lparr>wordbooks := [], words := [], posTags := []\<rparr>))) =
     Array [''w1'', ''w2'']"
  using getWordsByWordbookId_cache_first
    [of warmWorld "''u1''" "''wb1''" "[]" "[]" "[]"]
  by (simp add: warmWorld_def getWordsByWordbookId_def exampleWorld_def exampleInput_def
      store_eval)

subsection \<open>Deleting a part-of-speech tag\<close>

text \<open>The fan-out over the wordbooks never fails in this model: every update addresses a
  document the query has just returned. Its result relates to the word documents before it
  by \<open>cleaned\<close>, on the paths below the wordbooks of the snapshot.\<close>

lemma cleaned_trans: "cleaned t K1 p q \<Longrightarrow> cleaned t K2 q r \<Longrightarrow> cleaned t (K1 \<union> K2) p r"
  by (auto simp: cleaned_def split: if_splits)

lemma cleaned_empty: "list_all2 (cleaned t {}) ds ds"
  by (simp add: cleaned_def list_all2_refl)

lemma list_all2_cleaned_trans:
  "list_all2 (cleaned t K1) xs ys \<Longrightarrow> list_all2 (cleaned t K2) ys zs \<Longrightarrow>
   list_all2 (cleaned t (K1 \<union> K2)) xs zs"
  by (erule (1) list_all2_trans [rotated]) (erule (1) cleaned_trans)

lemma modifyDoc_cleaned:
  "t \<notin> set upd \<Longrightarrow>
   list_all2 (cleaned t {k}) ds (modifyDoc k (\<lambda>d. d\<lparr>partOfSpeech := upd\<rparr>) ds)"
  by (induction ds) (auto simp: modifyDoc_def cleaned_def)

lemma removeTagFromWords_result:
  "fst ` set snap \<subseteq> {i. (u, b, i) \<in> fst ` set ds} \<Longrightarrow>
   \<exists>ds'. removeTagFromWords u b t snap ds = Inr ds' \<and>
         list_all2 (cleaned t ((\<lambda>i. (u, b, i)) ` fst ` set snap)) ds ds'"
proof (induction snap arbitrary: ds)
  case Nil
  then show ?case by (simp add: cleaned_empty)
next
  case (Cons p snap)
  obtain i dat where p: "p = (i, dat)" by (cases p)
  let ?upd = "filter (\<lambda>x. x \<noteq> t) (partOfSpeech dat)"
  let ?ds1 = "modifyDoc (u, b, i) (\<lambda>d. d\<lparr>partOfSpeech := ?upd\<rparr>) ds"
  from Cons.prems p have ex: "(u, b, i) \<in> fst ` set ds" by auto
  then have upd: "updateDoc (u, b, i) (\<lambda>d. d\<lparr>partOfSpeech := ?upd\<rparr>) ds = Inr ?ds1"
    by (simp add: updateDoc_Inr_iff)
  have step: "list_all2 (cleaned t {(u, b, i)}) ds ?ds1"
    by (rule modifyDoc_cleaned) simp
  have "fst ` set ?ds1 = fst ` set ds"
    using map_fst_modifyDoc [of "(u, b, i)" _ ds] by (metis set_map)
  with Cons.prems have "fst ` set snap \<subseteq> {i. (u, b, i) \<in> fst ` set ?ds1}" by auto
  from Cons.IH [OF this] obtain ds' where
    run: "removeTagFromWords u b t snap ?ds1 = Inr ds'" and
    rest: "list_all2 (cleaned t ((\<lambda>i. (u, b, i)) ` fst ` set snap)) ?ds1 ds'"
    by blast
  from list_all2_cleaned_trans [OF step rest]
  have "list_all2 (cleaned t ((\<lambda>i. (u, b, i)) ` fst ` set (p # snap))) ds ds'"
    by (simp add: p)
  with run upd show ?case by (simp add: p Let_def)
qed

lemma removeTag_one_wordbook:
  "\<exists>ds'. removeTagFromWords u b t
            (filter (\<lambda>(i, d). t \<in> set (partOfSpeech d)) (wordDocsIn u b ds)) ds = Inr ds' \<and>
         list_all2 (cleaned t {k. fst k = u \<and> fst (snd k) = b}) ds ds'"
proof -
  let ?snap = "filter (\<lambda>(i, d). t \<in> set (partOfSpeech d)) (wordDocsIn u b ds)"
  have "fst ` set ?snap \<subseteq> {i. (u, b, i) \<in> fst ` set ds}"
    by (force simp: wordDocsIn_member)
  from removeTagFromWords_result [OF this, of t] obtain ds' where
    run: "removeTagFromWords u b t ?snap ds = Inr ds'" and
    cl: "list_all2 (cleaned t ((\<lambda>i. (u, b, i)) ` fst ` set ?snap)) ds ds'"
    by blast
  have "list_all2 (cleaned t {k. fst k = u \<and> fst (snd k) = b}) ds ds'"
    using cl
  proof (rule list.rel_mono_strong)
    fix p q
    assume pin: "p \<in> set ds" and c: "cleaned t ((\<lambda>i. (u, b, i)) ` fst ` set ?snap) p q"
    obtain u' b' i d where pp: "p = ((u', b', i), d)" by (cases p) auto
    show "cleaned t {k. fst k = u \<and> fst (snd k) = b} p q"
    proof (cases "u' = u \<and> b' = b")
      case False
      then have "(u', b', i) \<notin> (\<lambda>i. (u, b, i)) ` fst ` set ?snap" by auto
      with c pp False show ?thesis by (auto simp: cleaned_def)
    next
      case True
      show ?thesis
      proof (cases "t \<in> set (partOfSpeech d)")
        case False
        with c pp True show ?thesis by (auto simp: cleaned_def split: if_splits)
      next
        case tin: True
        from pin pp True have "(i, d) \<in> set (wordDocsIn u b ds)"
          by (simp add: wordDocsIn_member)
        with tin have "(i, d) \<in> set ?snap" by simp
        then have "i \<in> fst ` set ?snap" by (rule rev_image_eqI) simp
        then have "(u, b, i) \<in> (\<lambda>i. (u, b, i)) ` fst ` set ?snap" by (rule imageI)
        with c pp True show ?thesis by (auto simp: cleaned_def)
      qed
    qed
  qed
  with run show ?thesis by blast
qed

lemma removeTagFromWordbooks_result:
  "\<exists>ds'. removeTagFromWordbooks u t snap ds = Inr ds' \<and>
         list_all2 (cleaned t {k. fst k = u \<and> fst (snd k) \<in> fst ` set snap}) ds ds'"
proof (induction snap arbitrary: ds)
  case Nil
  then show ?case by (simp add: cleaned_empty)
next
  case (Cons p snap)
  obtain b dat where p: "p = (b, dat)" by (cases p)
  from removeTag_one_wordbook [of u b t ds] obtain ds1 where
    run1: "removeTagFromWords u b t
            (filter (\<lambda>(i, d). t \<in> set (partOfSpeech d)) (wordDocsIn u b ds)) ds = Inr ds1" and
    cl1: "list_all2 (cleaned t {k. fst k = u \<and> fst (snd k) = b}) ds ds1"
    by blast
  from Cons.IH [of ds1] obtain ds' where
    run: "removeTagFromWordbooks u t snap ds1 = Inr ds'" and
    cl: "list_all2 (cleaned t {k. fst k = u \<and> fst (snd k) \<in> fst ` set snap}) ds1 ds'"
    by blast
  have eq: "{k. fst k = u \<and> fst (snd k) = b} \<union> {k. fst k = u \<and> fst (snd k) \<in> fst ` set snap} =
      {k. fst k = u \<and> fst (snd k) \<in> fst ` set (p # snap)}"
    by (auto simp: p)
  have "list_all2 (cleaned t {k. fst k = u \<and> fst (snd k) \<in> fst ` set (p # snap)}) ds ds'"
    using list_all2_cleaned_trans [OF cl1 cl] unfolding eq .
  moreover have "removeTagFromWordbooks u t (p # snap) ds = Inr ds'"
    using run1 run by (simp add: p Let_def)
  ultimately show ?case by blast
qed

lemma deletePartOfSpeechTag_cases:
  assumes "removeTagFromWordbooks u t (wordbookDocsOf u w) (words w) = Inr ds"
  shows "deletePartOfSpeechTag u t w =
     (case readProperty (posTagCache w) u of
        None \<Rightarrow> (Inr (), w\<lparr>words := ds, posTags := deleteDoc (u, t) (posTags w)\<rparr>)
      | Some (Array cached) \<Rightarrow>
          (Inr (),
           w\<lparr>words := ds, posTags := deleteDoc (u, t) (posTags w),
             posTagCache := (posTagCache w)(u \<mapsto> filter (\<lambda>x. id_tag x \<noteq> t) cached)\<rparr>)
      | Some (Inherited p) \<Rightarrow>
          (Inl TypeError, w\<lparr>words := ds, posTags := deleteDoc (u, t) (posTags w)\<rparr>))"
  by (cases rule: readProperty_cases [of "posTagCache w" u])
    (simp_all add: deletePartOfSpeechTag_def Let_def assms)

lemma deletePartOfSpeechTag_outcome:
  "fst (deletePartOfSpeechTag u t w) =
     (if posTagCache w u = None \<and> u \<in> set objectPrototypeKeys then Inl TypeError else Inr ())"
proof -
  from removeTagFromWordbooks_result [of u t "wordbookDocsOf u w" "words w"] obtain ds where
    "removeTagFromWordbooks u t (wordbookDocsOf u w) (words w) = Inr ds"
    by blast
  from deletePartOfSpeechTag_cases [OF this] show ?thesis
    by (cases rule: readProperty_cases [of "posTagCache w" u]) simp_all
qed

lemma deletePartOfSpeechTag_state:
  assumes "removeTagFromWordbooks u t (wordbookDocsOf u w) (words w) = Inr ds"
  shows "words (snd (deletePartOfSpeechTag u t w)) = ds"
    and "wordbooks (snd (deletePartOfSpeechTag u t w)) = wordbooks w"
    and "posTags (snd (deletePartOfSpeechTag u t w)) = deleteDoc (u, t) (posTags w)"
    and "wordCache (snd (deletePartOfSpeechTag u t w)) = wordCache w"
    and "idTrace (snd (deletePartOfSpeechTag u t w)) = idTrace w"
    and "idReads (snd (deletePartOfSpeechTag u t w)) = idReads w"
  by (cases rule: readProperty_cases [of "posTagCache w" u];
      simp add: deletePartOfSpeechTag_cases [OF assms])+

lemma deletePartOfSpeechTag_words:
  assumes wb: "(b, dat) \<in> set (wordbookDocsOf u (snd (deletePartOfSpeechTag u t w)))"
    and wd: "(i, d) \<in> set (wordDocsIn u b (words (snd (deletePartOfSpeechTag u t w))))"
  shows "t \<notin> set (partOfSpeech d)"
proof -
  let ?K = "{k. fst k = u \<and> fst (snd k) \<in> fst ` set (wordbookDocsOf u w)}"
  from removeTagFromWordbooks_result [of u t "wordbookDocsOf u w" "words w"] obtain ds' where
    run: "removeTagFromWordbooks u t (wordbookDocsOf u w) (words w) = Inr ds'" and
    cl: "list_all2 (cleaned t ?K) (words w) ds'"
    by blast
  note w' = deletePartOfSpeechTag_state(1,2) [OF run]
  from wb have "(b, dat) \<in> set (wordbookDocsOf u w)"
    by (simp add: wordbookDocsOf_member w')
  then have "b \<in> fst ` set (wordbookDocsOf u w)" by (rule rev_image_eqI) simp
  then have inK: "(u, b, i) \<in> ?K" by simp
  from wd have "((u, b, i), d) \<in> set ds'" by (simp add: wordDocsIn_member w')
  with cl obtain p where "cleaned t ?K p ((u, b, i), d)"
    by (blast dest: list_all2_in_set_right)
  then obtain d0 where "cleaned t ?K ((u, b, i), d0) ((u, b, i), d)"
    by (cases p) (auto simp: cleaned_def)
  then have "if (u, b, i) \<in> ?K then t \<notin> set (partOfSpeech d) else d = d0"
    unfolding cleaned_def fst_conv snd_conv by (rule conjunct2)
  with inK show ?thesis by (simp only: if_True not_False_eq_True)
qed

lemma deletePartOfSpeechTag_listing:
  assumes "deletePartOfSpeechTag u t w = (Inr (), w')"
  shows "fst (getPartOfSpeechTags u w') =
     Array (case posTagCache w u of
              Some cached \<Rightarrow> filter (\<lambda>x. id_tag x \<noteq> t) cached
            | None \<Rightarrow> map toTag (tagDocsIn u (deleteDoc (u, t) (posTags w))))"
proof -
  from removeTagFromWordbooks_result [of u t "wordbookDocsOf u w" "words w"] obtain ds where
    run: "removeTagFromWordbooks u t (wordbookDocsOf u w) (words w) = Inr ds"
    by blast
  show ?thesis
    using assms
    by (cases rule: readProperty_cases [of "posTagCache w" u])
      (auto simp: deletePartOfSpeechTag_cases [OF run] getPartOfSpeechTags_def Let_def
        readProperty_def)
qed

text \<open>
  Claim C9. \<open>deletePartOfSpeechTag\<close> leaves the word cache exactly as it was, whether it
  completes or raises: every cache entry after the call is the entry before it. So a cached
  word list that contained the tag before still contains it afterwards, as in the example
  state with a filled cache. The call completes unless the user identifier is a key the tag
  cache inherits, where the update of the tag cache raises.
\<close>

theorem deletePartOfSpeechTag_keeps_wordCache:
  "wordCache (snd (deletePartOfSpeechTag userId tagId w)) = wordCache w \<and>
   fst (deletePartOfSpeechTag userId tagId w) =
     (if posTagCache w userId = None \<and> userId \<in> set objectPrototypeKeys
      then Inl TypeError else Inr ())"
proof -
  from removeTagFromWordbooks_result [of userId tagId "wordbookDocsOf userId w" "words w"]
  obtain ds where "removeTagFromWordbooks userId tagId (wordbookDocsOf userId w) (words w) = Inr ds"
    by blast
  then have "wordCache (snd (deletePartOfSpeechTag userId tagId w)) = wordCache w"
    by (rule deletePartOfSpeechTag_state)
  then show ?thesis by (simp add: deletePartOfSpeechTag_outcome)
qed

theorem deletePartOfSpeechTag_keeps_wordCache_witness:
  "fst (deletePartOfSpeechTag ''u1'' ''t1'' warmWorld) = Inr () \<and>
   map_js_value partOfSpeech
     (fst (getWordsByWordbookId ''u1'' ''wb1''
             (snd (deletePartOfSpeechTag ''u1'' ''t1'' warmWorld)))) =
     Array [[''t1'', ''t2''], [''t2'']] \<and>
   map (\<lambda>(i, d). partOfSpeech d)
     (wordDocsIn ''u1'' ''wb1'' (words (snd (deletePartOfSpeechTag ''u1'' ''t1'' warmWorld)))) =
     [[''t2''], [''t2'']]"
  using deletePartOfSpeechTag_keeps_wordCache [of "''u1''" "''t1''" warmWorld]
  by (simp add: warmWorld_def getWordsByWordbookId_def deletePartOfSpeechTag_def
      exampleWorld_def exampleInput_def store_eval)

text \<open>What \<open>deletePartOfSpeechTag\<close> achieves when it completes: every word fetched from the
  store below a wordbook document of the user is free of the tag, and the tag list read
  afterwards is the filtered cache entry or, on a cold cache, the remaining tag documents.\<close>

lemma deletePartOfSpeechTag_removes_tag:
  assumes "deletePartOfSpeechTag userId tagId w = (Inr (), w')"
    and "(wb, dat) \<in> set (wordbookDocsOf userId w')"
    and "x \<in> set (map toWord (wordDocsIn userId wb (words w')))"
  shows "tagId \<notin> set (partOfSpeech x)"
proof -
  from assms(1) have w': "w' = snd (deletePartOfSpeechTag userId tagId w)" by simp
  from assms(3) obtain i d where id: "(i, d) \<in> set (wordDocsIn userId wb (words w'))"
    and xd: "x = toWord (i, d)"
    by auto
  from assms(2) id have "tagId \<notin> set (partOfSpeech d)"
    unfolding w' by (rule deletePartOfSpeechTag_words)
  then show ?thesis by (simp add: xd toWord_def withId_def)
qed

text \<open>
  Claim C2. After \<open>deletePartOfSpeechTag\<close> the tag is to be gone from every word of the user
  and from the tag list. The code misses two cases, evaluated here. First, the readers
  build a record as \<^verbatim>\<open>{ id: docSnap.id, ...docSnap.data() }\<close>, so a stored \<^verbatim>\<open>id\<close> field
  overrides the document's identifier, and \<open>updatePartOfSpeechTag\<close> accepts such a field:
  after \<^verbatim>\<open>updatePartOfSpeechTag("u1", "t2", { id: "t1" })\<close>, deleting \<^verbatim>\<open>t1\<close> completes and
  the tag list read afterwards still contains the identifier \<^verbatim>\<open>t1\<close>. Second, the clean-up
  visits the word collections of the wordbook documents only: a word created below
  \<^verbatim>\<open>wbX\<close>, for which no wordbook document exists, keeps the tag.
\<close>

theorem deletePartOfSpeechTag_leaves_references:
  "fst (deletePartOfSpeechTag ''u1'' ''t1'' aliasedTagWorld) = Inr () \<and>
   map fst (posTags (snd (deletePartOfSpeechTag ''u1'' ''t1'' aliasedTagWorld))) =
     [(''u1'', ''t2'')] \<and>
   map_js_value id_tag
     (fst (getPartOfSpeechTags ''u1'' (snd (deletePartOfSpeechTag ''u1'' ''t1'' aliasedTagWorld)))) =
     Array [''t1''] \<and>
   fst (deletePartOfSpeechTag ''u1'' ''t1'' orphanWorld) = Inr () \<and>
   map (\<lambda>(k, d). (k, partOfSpeech d))
     (words (snd (deletePartOfSpeechTag ''u1'' ''t1'' orphanWorld))) =
     [((''u1'', ''wb1'', ''w1''), [''t2'']),
      ((''u1'', ''wb1'', ''w2''), [''t2'']),
      ((''u1'', ''wbX'', ''auto''), [''t1'', ''t2''])] \<and>
   map_js_value partOfSpeech
     (fst (getWordsByWordbookId ''u1'' ''wbX''
             (snd (deletePartOfSpeechTag ''u1'' ''t1'' orphanWorld)))) =
     Array [[''t1'', ''t2'']]"
  by (simp add: aliasedTagWorld_def orphanWorld_def updatePartOfSpeechTag_def createWord_def
      patchTagDoc_def patchTagFields_def deletePartOfSpeechTag_def getPartOfSpeechTags_def
      getWordsByWordbookId_def exampleWorld_def exampleInput_def store_eval)

subsection \<open>Bulk import\<close>

text \<open>The loop of \<open>bulkImportWords\<close> builds the words of \<open>importedWords\<close> and one
  \<^verbatim>\<open>set\<close> per word; a batch of \<^verbatim>\<open>set\<close>s never fails, and its effect on the store is a
  right-biased map update.\<close>

lemma id_w_withId: "id_w (withId d i) = i"
  by (simp add: withId_def)

lemma importItems_result:
  "importItems u b t ds w =
     ((map (\<lambda>x. BSet (u, b, id_w x) (docOfWord x)) (importedWords b t (idTrace w) (idReads w) ds),
       importedWords b t (idTrace w) (idReads w) ds),
      w\<lparr>idReads := idReads w + length ds\<rparr>)"
proof (induction ds arbitrary: w)
  case Nil
  then show ?case by (simp add: importedWords_def)
next
  case (Cons d ds)
  show ?case
    by (simp add: Cons.IH autoId_def importedWords_def docOfWord_def Let_def id_w_withId)
qed

lemma map_of_setDoc: "map_of (setDoc k d ds) = (map_of ds)(k \<mapsto> d)"
  by (rule ext) (simp add: map_of_setDoc_same map_of_setDoc_other)

lemma commit_sets:
  "commit (map (\<lambda>x. BSet (key x) (val x)) xs) ds =
     Inr (foldl (\<lambda>ds x. setDoc (key x) (val x) ds) ds xs)"
  by (induction xs arbitrary: ds) auto

lemma map_of_foldl_setDoc:
  "map_of (foldl (\<lambda>ds x. setDoc (key x) (val x) ds) ds xs) =
     map_of ds ++ map_of (rev (map (\<lambda>x. (key x, val x)) xs))"
proof (induction xs arbitrary: ds)
  case Nil
  then show ?case by simp
next
  case (Cons x xs)
  have "map_of (foldl (\<lambda>ds x. setDoc (key x) (val x) ds) ds (x # xs)) =
      (map_of ds)(key x \<mapsto> val x) ++ map_of (rev (map (\<lambda>x. (key x, val x)) xs))"
    by (simp only: foldl_Cons Cons.IH map_of_setDoc)
  also have "\<dots> = map_of ds ++ map_of (rev (map (\<lambda>x. (key x, val x)) (x # xs)))"
    by (simp add: map_add_upd_left ext map_add_def split: option.splits)
  finally show ?case .
qed

lemma bulkImportWords_cases:
  "bulkImportWords userId wordbookId data w =
     (let xs = importedWords wordbookId (clockTrace w (clockReads w)) (idTrace w) (idReads w) data;
          w3 = w\<lparr>clockReads := Suc (clockReads w),
                 idReads := idReads w + length data,
                 words :=
                   foldl (\<lambda>ds x. setDoc (userId, wordbookId, id_w x) (docOfWord x) ds)
                     (words w) xs\<rparr>;
          key = makeCacheKey userId wordbookId
      in case readProperty (wordCache w) key of
           Some (Array cached) \<Rightarrow>
             (Inr xs, w3\<lparr>wordCache := (wordCache w)(key \<mapsto> cached @ xs)\<rparr>)
         | Some (Inherited p) \<Rightarrow> (Inl TypeError, w3)
         | None \<Rightarrow> (Inr xs, w3\<lparr>wordCache := (wordCache w)(key \<mapsto> xs)\<rparr>))"
  by (cases rule: readProperty_cases [of "wordCache w" "makeCacheKey userId wordbookId"])
    (simp_all add: bulkImportWords_def now_def importItems_result commit_sets Let_def)

lemma importedWords_length: "length (importedWords b t ids n data) = length data"
  by (simp add: importedWords_def)

lemma importedWords_nth:
  "k < length data \<Longrightarrow>
   importedWords b t ids n data ! k = withId (stamp (data ! k) b t) (ids (n + k))"
  by (simp add: importedWords_def nth_enumerate_eq)

lemma importedWords_ids:
  "map id_w (importedWords b t ids n data) = map ids [n ..< n + length data]"
  by (rule nth_equalityI) (simp_all add: importedWords_length importedWords_nth id_w_withId)

lemma importedWords_stamps:
  "x \<in> set (importedWords b t ids n data) \<Longrightarrow>
   createdAt x = t \<and> reviewDate x = Some Null \<and> studyCount x = Some 0 \<and> wordbookId_w x = b"
  by (auto simp: importedWords_def withId_def stamp_def)

lemma toWord_docOfWord: "toWord (id_w x, docOfWord x) = x"
  by (cases x) (simp add: toWord_def docOfWord_def withId_def withIdField_def)

lemma imported_words_stored:
  assumes dist: "distinct (map id_w xs)" and x: "x \<in> set xs"
  shows "x \<in> set (map toWord (wordDocsIn u b
            (foldl (\<lambda>ds x. setDoc (u, b, id_w x) (docOfWord x) ds) ds xs)))"
proof -
  let ?kvs = "map (\<lambda>x. ((u, b, id_w x), docOfWord x)) xs"
  have "map fst (rev ?kvs) = rev (map (\<lambda>i. (u, b, i)) (map id_w xs))"
    by (simp add: rev_map o_def)
  moreover have "distinct (map (\<lambda>i. (u, b, i)) (map id_w xs))"
    using dist by (simp add: distinct_map inj_on_def)
  ultimately have "distinct (map fst (rev ?kvs))" by simp
  moreover from x have "((u, b, id_w x), docOfWord x) \<in> set (rev ?kvs)" by auto
  ultimately have "map_of (rev ?kvs) (u, b, id_w x) = Some (docOfWord x)"
    by (rule map_of_is_SomeI)
  then have "map_of (foldl (\<lambda>ds x. setDoc (u, b, id_w x) (docOfWord x) ds) ds xs) (u, b, id_w x) =
      Some (docOfWord x)"
    by (simp add: map_of_foldl_setDoc [where key = "\<lambda>x. (u, b, id_w x)" and val = docOfWord])
  then have "(id_w x, docOfWord x) \<in>
      set (wordDocsIn u b (foldl (\<lambda>ds x. setDoc (u, b, id_w x) (docOfWord x) ds) ds xs))"
    by (simp add: wordDocsIn_member map_of_SomeD)
  then have "toWord (id_w x, docOfWord x) \<in> set (map toWord (wordDocsIn u b
            (foldl (\<lambda>ds x. setDoc (u, b, id_w x) (docOfWord x) ds) ds xs)))"
    by (simp only: set_map) (rule imageI)
  then show ?thesis by (simp only: toWord_docOfWord)
qed

text \<open>What \<open>bulkImportWords\<close> does on \<open>N\<close> items, for every user and wordbook: it draws
  \<open>N\<close> identifiers, one per item in order, and reads the clock once; item \<open>n\<close> becomes the
  word with the item's fields, the \<open>n\<close>-th identifier, the target wordbook, that one clock
  reading, \<^verbatim>\<open>reviewDate = null\<close> and \<^verbatim>\<open>studyCount = 0\<close>; the store after the call is the
  result of one commit of a batch of exactly these \<open>N\<close> \<^verbatim>\<open>set\<close> writes. It then raises
  when the cache key is one the cache object inherits; otherwise it returns the words, and a
  following read returns the earlier cache entry, if any, followed by them.\<close>

lemma bulkImportWords_one_batch:
  assumes run: "bulkImportWords userId wordbookId data w = (r, w')"
  shows "\<exists>newWords.
        length newWords = length data \<and>
        map id_w newWords = map (idTrace w) [idReads w ..< idReads w + length data] \<and>
        idReads w' = idReads w + length data \<and>
        clockReads w' = Suc (clockReads w) \<and>
        (\<forall>n < length data.
           newWords ! n =
             \<lparr>word = word (data ! n), pinyin = pinyin (data ! n),
              favorite = favorite (data ! n), translation = translation (data ! n),
              partOfSpeech = partOfSpeech (data ! n),
              exampleSentence = exampleSentence (data ! n),
              exampleTranslation = exampleTranslation (data ! n),
              relatedWords = relatedWords (data ! n),
              usageFrequency = usageFrequency (data ! n), mastery = mastery (data ! n),
              note_w = note_w (data ! n), wordbookId_w = wordbookId,
              createdAt = clockTrace w (clockReads w), reviewDate = Some Null,
              studyCount = Some 0, id_w = idTrace w (idReads w + n)\<rparr>) \<and>
        commit (map (\<lambda>x. BSet (userId, wordbookId, id_w x) (withIdField x (Some (id_w x))))
                  newWords) (words w) = Inr (words w') \<and>
        r = (if wordCache w (makeCacheKey userId wordbookId) = None \<and>
                makeCacheKey userId wordbookId \<in> set objectPrototypeKeys
             then Inl TypeError else Inr newWords) \<and>
        (r = Inr newWords \<longrightarrow>
           fst (getWordsByWordbookId userId wordbookId w') =
             Array ((case wordCache w (makeCacheKey userId wordbookId) of
                       None \<Rightarrow> [] | Some cached \<Rightarrow> cached) @ newWords)) \<and>
        (distinct (map id_w newWords) \<longrightarrow>
           set newWords \<subseteq> set (map toWord (wordDocsIn userId wordbookId (words w'))))"
proof -
  let ?key = "makeCacheKey userId wordbookId"
  let ?xs = "importedWords wordbookId (clockTrace w (clockReads w)) (idTrace w) (idReads w) data"
  let ?ds = "foldl (\<lambda>ds x. setDoc (userId, wordbookId, id_w x) (docOfWord x) ds) (words w) ?xs"
  have facts: "words w' = ?ds \<and> idReads w' = idReads w + length data \<and>
      clockReads w' = Suc (clockReads w) \<and>
      r = (if wordCache w ?key = None \<and> ?key \<in> set objectPrototypeKeys
           then Inl TypeError else Inr ?xs) \<and>
      (r = Inr ?xs \<longrightarrow>
         wordCache w' ?key =
           Some ((case wordCache w ?key of None \<Rightarrow> [] | Some cached \<Rightarrow> cached) @ ?xs))"
    using run
    by (cases rule: readProperty_cases [of "wordCache w" ?key])
      (auto simp: bulkImportWords_cases Let_def)
  then have wds: "words w' = ?ds" by simp
  have batch: "commit (map (\<lambda>x. BSet (userId, wordbookId, id_w x) (withIdField x (Some (id_w x))))
                  ?xs) (words w) = Inr (words w')"
    unfolding wds
    using commit_sets [where key = "\<lambda>x. (userId, wordbookId, id_w x)" and val = docOfWord]
    by (simp add: docOfWord_def)
  have list: "r = Inr ?xs \<longrightarrow> fst (getWordsByWordbookId userId wordbookId w') =
      Array ((case wordCache w ?key of None \<Rightarrow> [] | Some cached \<Rightarrow> cached) @ ?xs)"
    using facts by (auto simp: getWordsByWordbookId_def readProperty_own)
  have stored: "distinct (map id_w ?xs) \<longrightarrow>
      set ?xs \<subseteq> set (map toWord (wordDocsIn userId wordbookId (words w')))"
    unfolding wds by (blast intro: imported_words_stored)
  have nth: "\<forall>n < length data.
      ?xs ! n =
             \<lparr>word = word (data ! n), pinyin = pinyin (data ! n),
              favorite = favorite (data ! n), translation = translation (data ! n),
              partOfSpeech = partOfSpeech (data ! n),
              exampleSentence = exampleSentence (data ! n),
              exampleTranslation = exampleTranslation (data ! n),
              relatedWords = relatedWords (data ! n),
              usageFrequency = usageFrequency (data ! n), mastery = mastery (data ! n),
              note_w = note_w (data ! n), wordbookId_w = wordbookId,
              createdAt = clockTrace w (clockReads w), reviewDate = Some Null,
              studyCount = Some 0, id_w = idTrace w (idReads w + n)\<rparr>"
    by (simp add: importedWords_nth withId_def stamp_def)
  show ?thesis
    using importedWords_length [of wordbookId _ _ _ data]
      importedWords_ids [of wordbookId _ "idTrace w" "idReads w" data]
      facts nth batch list stored
    by blast
qed

text \<open>
  Claim C3. \<open>bulkImportWords\<close> is to commit the batch and leave the cache such that a
  following \<open>getWordsByWordbookId\<close> returns all the imported words. The cache is a plain
  object, and the code tests \<^verbatim>\<open>wordCache[key]\<close> without checking that the object owns the
  key: for the user \<^verbatim>\<open>_\<close> and the wordbook \<^verbatim>\<open>proto__\<close> the key is \<^verbatim>\<open>__proto__\<close>, the test
  finds \<^verbatim>\<open>Object.prototype\<close>, and \<^verbatim>\<open>push\<close> on it raises a \<^verbatim>\<open>TypeError\<close> after the batch
  has been committed. The call does not return the words, and the following read returns
  the prototype object, not the imported word.
\<close>

theorem bulkImportWords_inherited_key:
  "makeCacheKey ''_'' ''proto__'' = ''__proto__'' \<and>
   fst (bulkImportWords ''_'' ''proto__'' [exampleInput] exampleWorld) = Inl TypeError \<and>
   map (\<lambda>(k, d). (k, word d, wordbookId_w d, createdAt d, reviewDate d, studyCount d))
     (words (snd (bulkImportWords ''_'' ''proto__'' [exampleInput] exampleWorld))) =
     [((''u1'', ''wb1'', ''w1''), ''ni hao'', ''wb1'', 10, Some (Val 50), Some 4),
      ((''u1'', ''wb1'', ''w2''), ''ni hao'', ''wb1'', 11, Some Null, Some 0),
      ((''_'', ''proto__'', ''auto''), ''ni hao'', ''proto__'', 100, Some Null, Some 0)] \<and>
   fst (getWordsByWordbookId ''_'' ''proto__''
          (snd (bulkImportWords ''_'' ''proto__'' [exampleInput] exampleWorld))) =
     Inherited ''__proto__''"
  by (simp add: bulkImportWords_cases importedWords_def docOfWord_def enumerate_eq_zip
      getWordsByWordbookId_def exampleWorld_def exampleInput_def store_eval)

subsection \<open>Resetting the progress of words\<close>

text \<open>A batch of updates with an idempotent change either fails, when one of its documents is
  missing, or changes exactly the listed documents.\<close>

lemma resetFields_idem: "resetFields (resetFields d) = resetFields d"
  by (simp add: resetFields_def)

lemma modifyDoc_keys: "fst ` set (modifyDoc k f ds) = fst ` set ds"
  using map_fst_modifyDoc [of k f ds] by (metis set_map)

lemma commit_updates:
  assumes idem: "\<And>d. f (f d) = f d"
  shows "commit (map (\<lambda>i. BUpdate (key i) f) ids) ds =
     (if \<forall>i\<in>set ids. key i \<in> fst ` set ds
      then Inr (map (\<lambda>(k, d). if k \<in> key ` set ids then (k, f d) else (k, d)) ds)
      else Inl NotFound)"
proof (induction ids arbitrary: ds)
  case Nil
  then show ?case by (simp add: split_def)
next
  case (Cons i ids)
  show ?case
  proof (cases "key i \<in> fst ` set ds")
    case False
    then have "map_of ds (key i) = None" by (simp add: map_of_eq_None_iff)
    with False show ?thesis by (simp add: updateDoc_def)
  next
    case True
    then have upd: "updateDoc (key i) f ds = Inr (modifyDoc (key i) f ds)"
      by (simp add: updateDoc_Inr_iff)
    have twice: "map (\<lambda>(k, d). if k \<in> key ` set ids then (k, f d) else (k, d))
          (modifyDoc (key i) f ds) =
        map (\<lambda>(k, d). if k \<in> key ` set (i # ids) then (k, f d) else (k, d)) ds"
      by (auto simp: modifyDoc_def idem)
    show ?thesis
      using True by (simp add: upd Cons.IH modifyDoc_keys twice)
  qed
qed

lemma resetWordsProgress_cases:
  "resetWordsProgress userId wordbookId ids w =
     (if \<forall>i\<in>set ids. (userId, wordbookId, i) \<in> fst ` set (words w)
      then (let w1 = w\<lparr>words :=
                  map (\<lambda>(k, d). if k \<in> (\<lambda>i. (userId, wordbookId, i)) ` set ids
                                 then (k, resetFields d) else (k, d)) (words w)\<rparr>;
                key = makeCacheKey userId wordbookId
            in case readProperty (wordCache w) key of
                 None \<Rightarrow> (Inr (), w1)
               | Some (Array cached) \<Rightarrow>
                   (Inr (),
                    w1\<lparr>wordCache := (wordCache w)(key \<mapsto>
                         map (\<lambda>x. if id_w x \<in> set ids then resetFields x else x) cached)\<rparr>)
               | Some (Inherited p) \<Rightarrow> (Inl TypeError, w1))
      else (Inl NotFound, w))"
  by (cases rule: readProperty_cases [of "wordCache w" "makeCacheKey userId wordbookId"])
    (simp_all add: resetWordsProgress_def Let_def
      commit_updates [where f = resetFields, OF resetFields_idem])

lemma refetch_after_reset:
  assumes "\<forall>k d. (k, d) \<in> set ds \<longrightarrow> idField_w d = None \<or> idField_w d = Some (snd (snd k))"
  shows "map toWord (wordDocsIn u b
           (map (\<lambda>(k, d). if k \<in> (\<lambda>i. (u, b, i)) ` set ids then (k, resetFields d) else (k, d)) ds)) =
         map (\<lambda>x. if id_w x \<in> set ids then resetFields x else x) (map toWord (wordDocsIn u b ds))"
  using assms
proof (induction ds)
  case Nil
  then show ?case by (simp add: wordDocsIn_def)
next
  case (Cons p ds)
  obtain u' b' i d where p: "p = ((u', b', i), d)" by (cases p) auto
  from Cons.prems have idf: "idField_w d = None \<or> idField_w d = Some i"
    by (auto simp: p)
  from Cons.prems have
    "\<forall>k d. (k, d) \<in> set ds \<longrightarrow> idField_w d = None \<or> idField_w d = Some (snd (snd k))"
    by auto
  from Cons.IH [OF this] have IH:
    "map toWord (wordDocsIn u b
           (map (\<lambda>(k, d). if k \<in> (\<lambda>i. (u, b, i)) ` set ids then (k, resetFields d) else (k, d)) ds)) =
         map (\<lambda>x. if id_w x \<in> set ids then resetFields x else x) (map toWord (wordDocsIn u b ds))" .
  have unf: "wordDocsIn u b (q # qs) =
      (case q of ((u', b', i), d) \<Rightarrow> if u' = u \<and> b' = b then (i, d) # wordDocsIn u b qs
         else wordDocsIn u b qs)" for q qs
    by (auto simp: wordDocsIn_def split: prod.splits)
  have idw: "id_w (toWord (i, d)) = i"
    using idf by (auto simp: toWord_def withId_def)
  have rs: "toWord (i, resetFields d) = resetFields (toWord (i, d))"
    by (simp add: toWord_def withId_def resetFields_def)
  show ?case
    using IH by (auto simp: p unf idw rs image_iff)
qed

text \<open>When \<open>resetWordsProgress\<close> completes, every listed identifier names a stored word
  of the wordbook; the word documents after the call are the documents before it, in the
  same order, where each document of the wordbook whose document identifier is listed has
  \<^verbatim>\<open>mastery = 0\<close>, \<^verbatim>\<open>studyCount = 0\<close>, \<^verbatim>\<open>reviewDate = null\<close> and its other fields as
  before, and every other document is unchanged. The cache entry, if present, is rewritten by
  the same rule on the \<^verbatim>\<open>id\<close> fields of the cached words. The two rules agree when no stored
  \<^verbatim>\<open>id\<close> field disagrees with its document's identifier.\<close>

lemma resetWordsProgress_resets_listed_only:
  assumes run: "resetWordsProgress userId wordbookId ids w = (Inr (), w')"
  shows "(\<forall>i \<in> set ids. (userId, wordbookId, i) \<in> fst ` set (words w)) \<and>
     words w' =
       map (\<lambda>(k, d). if k \<in> (\<lambda>i. (userId, wordbookId, i)) ` set ids
                      then (k, d\<lparr>mastery := 0, studyCount := Some 0, reviewDate := Some Null\<rparr>)
                      else (k, d)) (words w) \<and>
     wordCache w' =
       (case wordCache w (makeCacheKey userId wordbookId) of
          None \<Rightarrow> wordCache w
        | Some cached \<Rightarrow>
            (wordCache w)(makeCacheKey userId wordbookId \<mapsto>
               map (\<lambda>x. if id_w x \<in> set ids
                         then x\<lparr>mastery := 0, studyCount := Some 0, reviewDate := Some Null\<rparr>
                         else x) cached)) \<and>
     wordbooks w' = wordbooks w \<and> posTags w' = posTags w \<and> posTagCache w' = posTagCache w \<and>
     ((\<forall>k d. (k, d) \<in> set (words w) \<longrightarrow>
          idField_w d = None \<or> idField_w d = Some (snd (snd k))) \<and>
      wordCache w (makeCacheKey userId wordbookId) =
        Some (map toWord (wordDocsIn userId wordbookId (words w))) \<longrightarrow>
      wordCache w' (makeCacheKey userId wordbookId) =
        Some (map toWord (wordDocsIn userId wordbookId (words w'))))"
proof -
  let ?key = "makeCacheKey userId wordbookId"
  let ?g = "\<lambda>(k, d). if k \<in> (\<lambda>i. (userId, wordbookId, i)) ` set ids
                      then (k, resetFields d) else (k, d)"
  from run have ex: "\<forall>i \<in> set ids. (userId, wordbookId, i) \<in> fst ` set (words w)"
    by (auto simp: resetWordsProgress_cases split: if_splits)
  with run have w': "w' = w\<lparr>words := map ?g (words w),
      wordCache := (case wordCache w ?key of
                   None \<Rightarrow> wordCache w
                 | Some cached \<Rightarrow>
                     (wordCache w)(?key \<mapsto>
                        map (\<lambda>x. if id_w x \<in> set ids then resetFields x else x) cached))\<rparr>"
    by (cases rule: readProperty_cases [of "wordCache w" ?key])
      (auto simp: resetWordsProgress_cases Let_def)
  have coh: "wordCache w' ?key = Some (map toWord (wordDocsIn userId wordbookId (words w')))"
    if wf: "\<forall>k d. (k, d) \<in> set (words w) \<longrightarrow>
          idField_w d = None \<or> idField_w d = Some (snd (snd k))"
      and c: "wordCache w ?key = Some (map toWord (wordDocsIn userId wordbookId (words w)))"
    using refetch_after_reset [OF wf, of userId wordbookId ids] c
    by (simp add: w')
  show ?thesis
    using ex coh by (auto simp: w' resetFields_def split: option.splits)
qed

text \<open>
  Claim C4. After \<open>resetWordsProgress\<close> every Word whose id is listed is to be reset, in the
  store and in lockstep in the cache entry, and every other Word is to be unchanged. The
  store side selects by document identifier, the cache side by the \<^verbatim>\<open>id\<close> field of the
  cached Word, and a Word read from the store takes its \<^verbatim>\<open>id\<close> from the stored \<^verbatim>\<open>id\<close> field
  when there is one (\<^verbatim>\<open>{ id: docSnap.id, ...docSnap.data() }\<close>). After the layer's own
  \<^verbatim>\<open>updateWord("u1", "wb1", "w2", { id: "w1" })\<close> the two disagree: resetting \<^verbatim>\<open>["w1"]\<close>
  completes, a fresh fetch from the store yields two Words with id \<^verbatim>\<open>w1\<close>, the second still
  with \<^verbatim>\<open>mastery = 3\<close>, while the cache entry holds both with \<^verbatim>\<open>mastery = 0\<close>.
\<close>

theorem resetWordsProgress_aliased_id:
  "fst (resetWordsProgress ''u1'' ''wb1'' [''w1''] aliasedWordWorld) = Inr () \<and>
   map (\<lambda>(k, d). (k, idField_w d, mastery d))
     (words (snd (resetWordsProgress ''u1'' ''wb1'' [''w1''] aliasedWordWorld))) =
     [((''u1'', ''wb1'', ''w1''), None, 0), ((''u1'', ''wb1'', ''w2''), Some ''w1'', 3)] \<and>
   map_js_value (\<lambda>x. (id_w x, mastery x))
     (fst (getWordsByWordbookId ''u1'' ''wb1''
        ((snd (resetWordsProgress ''u1'' ''wb1'' [''w1''] aliasedWordWorld))
           \<lparr>wordCache := Map.empty\<rparr>))) =
     Array [(''w1'', 0), (''w1'', 3)] \<and>
   map_js_value (\<lambda>x. (id_w x, mastery x))
     (fst (getWordsByWordbookId ''u1'' ''wb1''
        (snd (resetWordsProgress ''u1'' ''wb1'' [''w1''] aliasedWordWorld)))) =
     Array [(''w1'', 0), (''w1'', 0)]"
  by (simp add: resetWordsProgress_cases aliasedWordWorld_def updateWord_def warmWorld_def
      getWordsByWordbookId_def emptyPatch_def patchWord_def patchDoc_def patchFields_def resetFields_def
      exampleWorld_def exampleInput_def store_eval)

subsection \<open>Trashing a wordbook\<close>

text \<open>What each operation does to the wordbook documents and to the identifier generator.\<close>

lemma trashWordbook_cases:
  "trashWordbook u b w =
     (if (u, b) \<in> fst ` set (wordbooks w)
      then (Inr (),
            w\<lparr>clockReads := Suc (clockReads w),
              wordbooks := modifyDoc (u, b)
                (\<lambda>d. d\<lparr>trashed := Some True, trashedAt := Some (Val (clockTrace w (clockReads w)))\<rparr>)
                (wordbooks w)\<rparr>)
      else (Inl NotFound, w\<lparr>clockReads := Suc (clockReads w)\<rparr>))"
  unfolding key_in_docs_iff
  by (cases "map_of (wordbooks w) (u, b)")
    (simp_all add: trashWordbook_def now_def updateDoc_def)

lemma updateWordbookName_cases:
  "updateWordbookName u b n w =
     (if (u, b) \<in> fst ` set (wordbooks w)
      then (Inr (), w\<lparr>wordbooks := modifyDoc (u, b) (\<lambda>d. d\<lparr>name_wb := n\<rparr>) (wordbooks w)\<rparr>)
      else (Inl NotFound, w))"
  unfolding key_in_docs_iff
  by (cases "map_of (wordbooks w) (u, b)")
    (simp_all add: updateWordbookName_def updateDoc_def)

lemma deleteWordbook_frame:
  "wordbooks (deleteWordbook u b w) = deleteDoc (u, b) (wordbooks w)"
  "idTrace (deleteWordbook u b w) = idTrace w" "idReads (deleteWordbook u b w) = idReads w"
  by (simp_all add: deleteWordbook_def Let_def)

lemma foldl_deleteWordbook_frame:
  "set (wordbooks (foldl (\<lambda>w' wb. deleteWordbook u (id_wb wb) w') w bs)) \<subseteq> set (wordbooks w) \<and>
   idTrace (foldl (\<lambda>w' wb. deleteWordbook u (id_wb wb) w') w bs) = idTrace w \<and>
   idReads (foldl (\<lambda>w' wb. deleteWordbook u (id_wb wb) w') w bs) = idReads w"
proof (induction bs arbitrary: w)
  case Nil
  then show ?case by simp
next
  case (Cons b bs)
  have "set (wordbooks (deleteWordbook u (id_wb b) w)) \<subseteq> set (wordbooks w)"
    by (auto simp: deleteWordbook_frame deleteDoc_def)
  with Cons.IH [of "deleteWordbook u (id_wb b) w"] show ?case
    by (auto simp: deleteWordbook_frame)
qed

lemma getWordsByWordbookId_frame:
  "wordbooks (snd (getWordsByWordbookId u b w)) = wordbooks w"
  "idTrace (snd (getWordsByWordbookId u b w)) = idTrace w"
  "idReads (snd (getWordsByWordbookId u b w)) = idReads w"
  by (cases rule: readProperty_cases [of "wordCache w" "makeCacheKey u b"];
      simp add: getWordsByWordbookId_def Let_def)+

lemma createWord_frame:
  "wordbooks (snd (createWord u b d w)) = wordbooks w"
  "idTrace (snd (createWord u b d w)) = idTrace w"
  "idReads (snd (createWord u b d w)) = Suc (idReads w)"
  by (cases "map_of (words w) (u, b, idTrace w (idReads w))";
      cases rule: readProperty_cases [of "wordCache w" "makeCacheKey u b"];
      simp add: createWord_def now_def autoId_def addDoc_def Let_def)+

lemma updateWord_frame:
  "wordbooks (snd (updateWord u b i p w)) = wordbooks w"
  "idTrace (snd (updateWord u b i p w)) = idTrace w"
  "idReads (snd (updateWord u b i p w)) = idReads w"
  by (cases "map_of (words w) (u, b, i)";
      cases rule: readProperty_cases [of "wordCache w" "makeCacheKey u b"];
      simp add: updateWord_def updateDoc_def Let_def)+

lemma deleteWord_frame:
  "wordbooks (snd (deleteWord u b i w)) = wordbooks w"
  "idTrace (snd (deleteWord u b i w)) = idTrace w"
  "idReads (snd (deleteWord u b i w)) = idReads w"
  by (cases rule: readProperty_cases [of "wordCache w" "makeCacheKey u b"];
      simp add: deleteWord_def Let_def)+

lemma bulkImportWords_frame:
  "wordbooks (snd (bulkImportWords u b ds w)) = wordbooks w"
  "idTrace (snd (bulkImportWords u b ds w)) = idTrace w"
  "idReads (snd (bulkImportWords u b ds w)) = idReads w + length ds"
  by (cases rule: readProperty_cases [of "wordCache w" "makeCacheKey u b"];
      simp add: bulkImportWords_cases Let_def)+

lemma resetWordsProgress_frame:
  "wordbooks (snd (resetWordsProgress u b ids w)) = wordbooks w"
  "idTrace (snd (resetWordsProgress u b ids w)) = idTrace w"
  "idReads (snd (resetWordsProgress u b ids w)) = idReads w"
  by (cases rule: readProperty_cases [of "wordCache w" "makeCacheKey u b"];
      simp add: resetWordsProgress_cases Let_def)+

lemma commit_deletes:
  "commit (map (\<lambda>i. BDelete (key i)) ids) ds =
     Inr (filter (\<lambda>(k, d). k \<notin> key ` set ids) ds)"
proof (induction ids arbitrary: ds)
  case Nil
  then show ?case by simp
next
  case (Cons i ids)
  show ?case
    by (simp add: Cons.IH deleteDoc_def) (auto intro: filter_cong)
qed

lemma bulkDeleteWords_frame:
  "wordbooks (snd (bulkDeleteWords u b ids w)) = wordbooks w"
  "idTrace (snd (bulkDeleteWords u b ids w)) = idTrace w"
  "idReads (snd (bulkDeleteWords u b ids w)) = idReads w"
  by (cases rule: readProperty_cases [of "wordCache w" "makeCacheKey u b"];
      simp add: bulkDeleteWords_def commit_deletes Let_def)+

lemma getPartOfSpeechTags_frame:
  "wordbooks (snd (getPartOfSpeechTags u w)) = wordbooks w"
  "idTrace (snd (getPartOfSpeechTags u w)) = idTrace w"
  "idReads (snd (getPartOfSpeechTags u w)) = idReads w"
  by (cases rule: readProperty_cases [of "posTagCache w" u];
      simp add: getPartOfSpeechTags_def Let_def)+

lemma createPartOfSpeechTag_frame:
  "wordbooks (snd (createPartOfSpeechTag u d w)) = wordbooks w"
  "idTrace (snd (createPartOfSpeechTag u d w)) = idTrace w"
  "idReads (snd (createPartOfSpeechTag u d w)) = Suc (idReads w)"
  by (cases "map_of (posTags w) (u, idTrace w (idReads w))";
      cases rule: readProperty_cases [of "posTagCache w" u];
      simp add: createPartOfSpeechTag_def autoId_def addDoc_def Let_def)+

lemma updatePartOfSpeechTag_frame:
  "wordbooks (snd (updatePartOfSpeechTag u t p w)) = wordbooks w"
  "idTrace (snd (updatePartOfSpeechTag u t p w)) = idTrace w"
  "idReads (snd (updatePartOfSpeechTag u t p w)) = idReads w"
  by (cases "map_of (posTags w) (u, t)";
      cases rule: readProperty_cases [of "posTagCache w" u];
      simp add: updatePartOfSpeechTag_def updateDoc_def Let_def)+

lemma deletePartOfSpeechTag_frame:
  "wordbooks (snd (deletePartOfSpeechTag u t w)) = wordbooks w"
  "idTrace (snd (deletePartOfSpeechTag u t w)) = idTrace w"
  "idReads (snd (deletePartOfSpeechTag u t w)) = idReads w"
  using removeTagFromWordbooks_result [of u t "wordbookDocsOf u w" "words w"]
  by (auto simp: deletePartOfSpeechTag_state)

lemmas word_and_tag_frames =
  getWordsByWordbookId_frame createWord_frame updateWord_frame deleteWord_frame
  bulkImportWords_frame resetWordsProgress_frame bulkDeleteWords_frame
  getPartOfSpeechTags_frame createPartOfSpeechTag_frame updatePartOfSpeechTag_frame
  deletePartOfSpeechTag_frame

lemma modifyDoc_member:
  "(k', d') \<in> set (modifyDoc k f ds) \<longleftrightarrow>
     (k' \<noteq> k \<and> (k', d') \<in> set ds) \<or> (k' = k \<and> (\<exists>d. (k, d) \<in> set ds \<and> d' = f d))"
proof (induction ds)
  case Nil
  then show ?case by (simp add: modifyDoc_def)
next
  case (Cons p ds)
  obtain k0 d0 where p: "p = (k0, d0)" by (cases p)
  have unf: "modifyDoc k f (p # ds) =
      (if k0 = k then (k0, f d0) else (k0, d0)) # modifyDoc k f ds"
    by (simp add: modifyDoc_def p)
  show ?case
    unfolding unf using Cons.IH by (auto simp: p)
qed

lemma createWordbook_frame:
  "idTrace (snd (createWordbook u n w)) = idTrace w"
  "idReads (snd (createWordbook u n w)) = Suc (idReads w)"
  by (cases "map_of (wordbooks w) (u, idTrace w (idReads w))"; simp add: createWordbook_cases)+

lemma exec_idTrace: "idTrace (exec c w) = idTrace w"
  by (cases c)
    (simp_all add: word_and_tag_frames createWordbook_frame deleteWordbook_frame
      trashWordbook_cases updateWordbookName_cases clearTrashedWordbooks_def
      foldl_deleteWordbook_frame)

lemma exec_idReads: "idReads w \<le> idReads (exec c w)"
  by (cases c)
    (simp_all add: word_and_tag_frames createWordbook_frame deleteWordbook_frame
      trashWordbook_cases updateWordbookName_cases clearTrashedWordbooks_def
      foldl_deleteWordbook_frame)

lemma exec_keeps_trashed:
  assumes T: "allTrashed u i w"
    and fresh: "(\<exists>d. ((u, i), d) \<in> set (wordbooks w)) \<or> idTrace w (idReads w) \<noteq> i"
  shows "allTrashed u i (exec c w)"
proof (cases c)
  case (CreateWordbook u' n)
  show ?thesis
  proof (cases "map_of (wordbooks w) (u', idTrace w (idReads w))")
    case (Some d)
    with T show ?thesis
      by (simp add: CreateWordbook createWordbook_cases allTrashed_def)
  next
    case None
    have "(u', idTrace w (idReads w)) \<noteq> (u, i)"
    proof
      assume eq: "(u', idTrace w (idReads w)) = (u, i)"
      with None have "map_of (wordbooks w) (u, i) = None" by simp
      then have "(u, i) \<notin> fst ` set (wordbooks w)" by (simp add: map_of_eq_None_iff)
      then have "\<not> (\<exists>d. ((u, i), d) \<in> set (wordbooks w))" by force
      with fresh have "idTrace w (idReads w) \<noteq> i" by simp
      with eq show False by simp
    qed
    with T None show ?thesis
      by (auto simp: CreateWordbook createWordbook_cases allTrashed_def)
  qed
next
  case (DeleteWordbook u' b)
  with T show ?thesis
    by (auto simp: allTrashed_def deleteWordbook_frame deleteDoc_def)
next
  case (TrashWordbook u' b)
  with T show ?thesis
    by (auto simp: allTrashed_def trashWordbook_cases modifyDoc_member)
next
  case (ClearTrashedWordbooks u')
  with T foldl_deleteWordbook_frame [of u' w "getTrashedWordbooksByUserId u' w"]
  show ?thesis
    by (auto simp: allTrashed_def clearTrashedWordbooks_def)
next
  case (UpdateWordbookName u' b n)
  with T show ?thesis
    by (auto simp: allTrashed_def updateWordbookName_cases modifyDoc_member)
qed (use T in \<open>simp_all add: allTrashed_def word_and_tag_frames\<close>)

lemma exec_neverGenerated: "neverGenerated i w \<Longrightarrow> neverGenerated i (exec c w)"
  using exec_idReads [of w c] by (auto simp: neverGenerated_def exec_idTrace)

lemma run_keeps_trashed:
  "allTrashed u i w \<Longrightarrow> neverGenerated i w \<Longrightarrow> allTrashed u i (run ops w)"
proof (induction ops arbitrary: w)
  case Nil
  then show ?case by (simp add: run_def)
next
  case (Cons c ops)
  from Cons.prems have "idTrace w (idReads w) \<noteq> i" by (simp add: neverGenerated_def)
  with Cons.prems have "allTrashed u i (exec c w)" by (simp add: exec_keeps_trashed)
  moreover from Cons.prems have "neverGenerated i (exec c w)" by (simp add: exec_neverGenerated)
  ultimately have "allTrashed u i (run ops (exec c w))" by (rule Cons.IH)
  then show ?case by (simp add: run_def)
qed

lemma getWordbooksByUserId_member:
  "b \<in> set (getWordbooksByUserId u w) \<longleftrightarrow>
     (\<exists>i d. ((u, i), d) \<in> set (wordbooks w) \<and> trashed d \<noteq> Some True \<and> b = toWordbook (i, d))"
proof
  assume "b \<in> set (getWordbooksByUserId u w)"
  then obtain i d where "(i, d) \<in> set (wordbookDocsOf u w)" "\<not> truthy (trashed d)"
    "b = toWordbook (i, d)"
    by (auto simp: getWordbooksByUserId_def)
  then show "\<exists>i d. ((u, i), d) \<in> set (wordbooks w) \<and> trashed d \<noteq> Some True \<and> b = toWordbook (i, d)"
    by (auto simp: wordbookDocsOf_member truthy_def)
next
  assume "\<exists>i d. ((u, i), d) \<in> set (wordbooks w) \<and> trashed d \<noteq> Some True \<and> b = toWordbook (i, d)"
  then obtain i d where "(i, d) \<in> set (wordbookDocsOf u w)" "\<not> truthy (trashed d)"
    "b = toWordbook (i, d)"
    by (auto simp: wordbookDocsOf_member truthy_def)
  then show "b \<in> set (getWordbooksByUserId u w)"
    by (force simp: getWordbooksByUserId_def)
qed

lemma allTrashed_hidden:
  "allTrashed u i w \<Longrightarrow> i \<notin> id_wb ` set (getWordbooksByUserId u w)"
  by (auto simp: getWordbooksByUserId_member allTrashed_def toWordbook_def)

lemma trashWordbook_done:
  assumes "trashWordbook u i w = (Inr (), w1)"
  shows "\<exists>d. getDoc (u, i) (wordbooks w) = Some d \<and>
           getDoc (u, i) (wordbooks w1) =
             Some (d\<lparr>trashed := Some True, trashedAt := Some (Val (clockTrace w (clockReads w)))\<rparr>)"
    and "allTrashed u i w1"
proof -
  from assms have ex: "(u, i) \<in> fst ` set (wordbooks w)"
    by (auto simp: trashWordbook_cases split: if_splits)
  with assms have w1: "w1 = w\<lparr>clockReads := Suc (clockReads w),
      wordbooks := modifyDoc (u, i)
        (\<lambda>d. d\<lparr>trashed := Some True, trashedAt := Some (Val (clockTrace w (clockReads w)))\<rparr>)
        (wordbooks w)\<rparr>"
    by (simp add: trashWordbook_cases)
  from ex obtain d where "map_of (wordbooks w) (u, i) = Some d"
    unfolding key_in_docs_iff by blast
  then show "\<exists>d. getDoc (u, i) (wordbooks w) = Some d \<and>
           getDoc (u, i) (wordbooks w1) =
             Some (d\<lparr>trashed := Some True, trashedAt := Some (Val (clockTrace w (clockReads w)))\<rparr>)"
    by (simp add: w1 getDoc_def map_of_modifyDoc)
  show "allTrashed u i w1"
    by (auto simp: allTrashed_def w1 modifyDoc_member)
qed

text \<open>
  Claim C6. \<open>getWordbooksByUserId\<close> returns exactly the wordbook documents of the user whose
  \<^verbatim>\<open>trashed\<close> flag is not \<^verbatim>\<open>true\<close>. When \<open>trashWordbook\<close> completes, the document exists
  and has been updated to \<^verbatim>\<open>trashed = true\<close> and \<^verbatim>\<open>trashedAt\<close> the clock reading of the
  call; the wordbook is missing from the list at once, and from the list after any sequence
  of operations of the layer, provided the identifier generator does not hand out the
  wordbook's identifier again (it yields unique identifiers). No operation clears the flag:
  when the wordbook's document exists and is trashed, then after any single operation it is
  deleted or still trashed.
\<close>

theorem trashed_wordbook_stays_hidden:
  "(\<forall>b. b \<in> set (getWordbooksByUserId userId w) \<longleftrightarrow>
      (\<exists>i d. ((userId, i), d) \<in> set (wordbooks w) \<and> trashed d \<noteq> Some True \<and>
             b = toWordbook (i, d))) \<and>
   (trashWordbook userId wordbookId w = (Inr (), w1) \<longrightarrow>
      (\<exists>d. getDoc (userId, wordbookId) (wordbooks w) = Some d \<and>
           getDoc (userId, wordbookId) (wordbooks w1) =
             Some (d\<lparr>trashed := Some True,
                     trashedAt := Some (Val (clockTrace w (clockReads w)))\<rparr>)) \<and>
      wordbookId \<notin> id_wb ` set (getWordbooksByUserId userId w1) \<and>
      ((\<forall>n \<ge> idReads w1. idTrace w1 n \<noteq> wordbookId) \<longrightarrow>
         wordbookId \<notin> id_wb ` set (getWordbooksByUserId userId (run ops w1)))) \<and>
   ((\<exists>d. ((userId, wordbookId), d) \<in> set (wordbooks w)) \<and>
    (\<forall>d. ((userId, wordbookId), d) \<in> set (wordbooks w) \<longrightarrow> trashed d = Some True) \<longrightarrow>
      (\<forall>d. ((userId, wordbookId), d) \<in> set (wordbooks (exec c w)) \<longrightarrow> trashed d = Some True))"
proof (intro conjI impI)
  show "\<forall>b. b \<in> set (getWordbooksByUserId userId w) \<longleftrightarrow>
      (\<exists>i d. ((userId, i), d) \<in> set (wordbooks w) \<and> trashed d \<noteq> Some True \<and>
             b = toWordbook (i, d))"
    by (simp only: getWordbooksByUserId_member) simp
next
  assume run: "trashWordbook userId wordbookId w = (Inr (), w1)"
  from trashWordbook_done(1) [OF run]
  show "\<exists>d. getDoc (userId, wordbookId) (wordbooks w) = Some d \<and>
           getDoc (userId, wordbookId) (wordbooks w1) =
             Some (d\<lparr>trashed := Some True,
                     trashedAt := Some (Val (clockTrace w (clockReads w)))\<rparr>)" .
  from trashWordbook_done(2) [OF run]
  show "wordbookId \<notin> id_wb ` set (getWordbooksByUserId userId w1)"
    by (rule allTrashed_hidden)
  assume "\<forall>n \<ge> idReads w1. idTrace w1 n \<noteq> wordbookId"
  then have "neverGenerated wordbookId w1" by (simp add: neverGenerated_def)
  with trashWordbook_done(2) [OF run] have "allTrashed userId wordbookId (run ops w1)"
    by (rule run_keeps_trashed)
  then show "wordbookId \<notin> id_wb ` set (getWordbooksByUserId userId (run ops w1))"
    by (rule allTrashed_hidden)
next
  assume "(\<exists>d. ((userId, wordbookId), d) \<in> set (wordbooks w)) \<and>
    (\<forall>d. ((userId, wordbookId), d) \<in> set (wordbooks w) \<longrightarrow> trashed d = Some True)"
  then have "allTrashed userId wordbookId (exec c w)"
    by (intro exec_keeps_trashed) (simp_all add: allTrashed_def)
  then show "\<forall>d. ((userId, wordbookId), d) \<in> set (wordbooks (exec c w)) \<longrightarrow> trashed d = Some True"
    by (simp add: allTrashed_def)
qed

theorem trashed_wordbook_stays_hidden_witness:
  "fst (trashWordbook ''u1'' ''wb1'' exampleWorld) = Inr () \<and>
   map id_wb (getWordbooksByUserId ''u1'' exampleWorld) = [''wb1''] \<and>
   ''wb1'' \<notin> id_wb `
     set (getWordbooksByUserId ''u1''
            (run [CreateWordbook ''u1'' ''new'', UpdateWordbookName ''u1'' ''wb1'' ''renamed'',
                  ClearTrashedWordbooks ''u1'', CreateWordbook ''u1'' ''again'']
               (snd (trashWordbook ''u1'' ''wb1'' exampleWorld)))) \<and>
   map (\<lambda>(k, d). (k, name_wb d, trashed d))
     (wordbooks (exec (UpdateWordbookName ''u1'' ''wb2'' ''older'') exampleWorld)) =
     [((''u1'', ''wb1''), ''HSK'', Some False), ((''u1'', ''wb2''), ''older'', Some True)]"
proof -
  let ?ops = "[CreateWordbook ''u1'' ''new'', UpdateWordbookName ''u1'' ''wb1'' ''renamed'',
                  ClearTrashedWordbooks ''u1'', CreateWordbook ''u1'' ''again'']"
  obtain w1 where run: "trashWordbook ''u1'' ''wb1'' exampleWorld = (Inr (), w1)"
    and src: "idTrace w1 = idTrace exampleWorld"
    by (simp add: trashWordbook_cases exampleWorld_def)
  have fresh: "\<forall>n \<ge> idReads w1. idTrace w1 n \<noteq> ''wb1''"
    by (simp add: src exampleWorld_sources)
  have listed: "map id_wb (getWordbooksByUserId ''u1'' exampleWorld) = [''wb1'']"
    by (simp add: getWordbooksByUserId_def exampleWorld_def store_eval)
  have second: "map (\<lambda>(k, d). (k, name_wb d, trashed d))
     (wordbooks (exec (UpdateWordbookName ''u1'' ''wb2'' ''older'') exampleWorld)) =
     [((''u1'', ''wb1''), ''HSK'', Some False), ((''u1'', ''wb2''), ''older'', Some True)]"
    using trashed_wordbook_stays_hidden
      [of "''u1''" exampleWorld "''wb2''" exampleWorld "[]"
        "UpdateWordbookName ''u1'' ''wb2'' ''older''"]
    by (simp add: updateWordbookName_cases exampleWorld_def modifyDoc_def)
  from trashed_wordbook_stays_hidden [of "''u1''" exampleWorld "''wb1''" w1 ?ops] run fresh
  have "''wb1'' \<notin> id_wb ` set (getWordbooksByUserId ''u1'' (run ?ops w1))"
    by blast
  with run listed second show ?thesis by simp
qed

end
